theory Spec2Isabelle
  imports Complex_Main "HOL-Library.Word"
begin

unbundle bit_operations_syntax

section \<open>JavaScript values and errors\<close>

text \<open>
  The SDK is TypeScript. A thrown exception is a value \<open>Thrown msg\<close> (the message of the
  \<open>Error\<close>); a computation that may throw has type \<open>js_error + 'a\<close>, \<open>Inl\<close> the throw.
  A \<open>Uint8Array\<close> / \<open>Buffer\<close> is a list of bytes. A JS string is a \<open>string\<close>, one
  \<open>char\<close> per code unit.
\<close>

datatype js_error = Thrown string

type_synonym byte = "8 word"

section \<open>JavaScript numbers\<close>

text \<open>
  A JavaScript number is an IEEE 754 binary64 value. The finite ones are real numbers, and
  every \<^verbatim>\<open>+\<close>, \<^verbatim>\<open>-\<close> and \<^verbatim>\<open>*\<close> returns the exact result rounded to the nearest binary64 value,
  ties to the even mantissa; a decimal literal of the source is rounded the same way.
  \<open>round_to_double\<close> is that rounding: \<open>double_exponent x\<close> is the binary exponent of
  \<open>x\<close> (not below -1022, where the subnormal values begin), the unit in the last place is
  \<open>2 ^ (e - 52)\<close>. Comparisons, \<^verbatim>\<open>Math.floor\<close>, \<^verbatim>\<open>Math.min\<close> and \<^verbatim>\<open>Math.max\<close> are exact. NaN and
  the infinities are not represented: no number of the model is beyond the largest binary64
  value.
\<close>

function bit_length :: "nat \<Rightarrow> nat" where
  "bit_length n = (if n = 0 then 0 else Suc (bit_length (n div 2)))"
  by pat_completeness auto
termination
  by (relation "measure (\<lambda>n. n)") auto

declare bit_length.simps [simp del]

definition pow2 :: "int \<Rightarrow> real" where
  "pow2 e = (if 0 \<le> e then 2 ^ nat e else 1 / 2 ^ nat (- e))"

definition double_exponent :: "real \<Rightarrow> int" where
  "double_exponent x =
     (let a = \<bar>x\<bar>;
          e = (if 1 \<le> a then int (bit_length (nat \<lfloor>a\<rfloor>)) - 1
               else let k = int (bit_length (nat \<lfloor>1 / a\<rfloor>)) - 1
                    in if a = pow2 (- k) then - k else - k - 1)
      in max e (- 1022))"

definition round_half_even :: "real \<Rightarrow> int" where
  "round_half_even m =
     (let n = \<lfloor>m\<rfloor>; r = m - of_int n
      in if r < 1 / 2 then n else if r > 1 / 2 then n + 1
         else if even n then n else n + 1)"

definition round_to_double :: "real \<Rightarrow> real" where
  "round_to_double x =
     (if x = 0 then 0
      else let ulp = pow2 (double_exponent x - 52)
           in of_int (round_half_even (x / ulp)) * ulp)"

definition double_sub :: "real \<Rightarrow> real \<Rightarrow> real" where
  "double_sub a b = round_to_double (a - b)"

definition double_add :: "real \<Rightarrow> real \<Rightarrow> real" where
  "double_add a b = round_to_double (a + b)"

definition double_mul :: "real \<Rightarrow> real \<Rightarrow> real" where
  "double_mul a b = round_to_double (a * b)"

text \<open>The number literals of validateResponse, as the doubles the platform reads them as.\<close>

definition lit_0_1 :: real where
  "lit_0_1 = round_to_double 0.1"

definition lit_0_2 :: real where
  "lit_0_2 = round_to_double 0.2"

definition lit_0_3 :: real where
  "lit_0_3 = round_to_double 0.3"

definition lit_0_4 :: real where
  "lit_0_4 = round_to_double 0.4"


section \<open>base58Encode (utils.ts; the same in both copies)\<close>

definition ALPHABET :: string where
  "ALPHABET = ''123456789ABCDEFGHJKLMNPQRSTUVWXYZabcdefghijkmnopqrstuvwxyz''"

definition BASE :: nat where
  "BASE = 58"

text \<open>\<^verbatim>\<open>for (const byte of bytes) num = num * 256n + BigInt(byte)\<close>, a BigInt: unbounded.\<close>

fun bytes_to_num :: "nat \<Rightarrow> byte list \<Rightarrow> nat" where
  "bytes_to_num num [] = num"
| "bytes_to_num num (b # bs) = bytes_to_num (num * 256 + unat b) bs"

text \<open>\<^verbatim>\<open>while (num > 0) { remainder = num % 58; num = num / 58; result = ALPHABET[remainder] + result }\<close>\<close>

function to_base58 :: "nat \<Rightarrow> string \<Rightarrow> string" where
  "to_base58 num result =
     (if num > 0 then to_base58 (num div BASE) ((ALPHABET ! (num mod BASE)) # result)
      else result)"
  by pat_completeness auto
termination
  by (relation "measure (\<lambda>(num, result). num)") (auto simp: BASE_def)

declare to_base58.simps [simp del]

text \<open>\<^verbatim>\<open>for (const byte of bytes) { if (byte === 0) result = '1' + result; else break; }\<close>\<close>

fun leading_ones :: "byte list \<Rightarrow> string \<Rightarrow> string" where
  "leading_ones [] result = result"
| "leading_ones (b # bs) result =
     (if b = 0 then leading_ones bs (CHR ''1'' # result) else result)"

text \<open>\<^verbatim>\<open>return result || '1'\<close>: the empty string is falsy.\<close>

definition base58Encode :: "byte list \<Rightarrow> string" where
  "base58Encode bytes =
     (let result = leading_ones bytes (to_base58 (bytes_to_num 0 bytes) [])
      in if result = [] then ''1'' else result)"

section \<open>extractSolanaFeePayer: the Solana transaction walk (utils.ts, the copy in src/unnamed/part_002)\<close>

text \<open>
  The walk indexes a \<open>Buffer\<close> with a running \<open>offset\<close>. An index outside the buffer does not
  throw in JavaScript: \<^verbatim>\<open>txBytes[offset]\<close> is \<^verbatim>\<open>undefined\<close>, arithmetic on \<^verbatim>\<open>undefined\<close> gives
  \<^verbatim>\<open>NaN\<close>, a comparison with \<^verbatim>\<open>undefined\<close> is false and \<^verbatim>\<open>slice\<close> clamps its bounds. So an
  offset is a \<open>nat option\<close> (\<open>None\<close> is NaN) and a value read from the buffer is a
  \<open>nat option\<close> (\<open>None\<close> is undefined). The only throw of the walk is
  \<^verbatim>\<open>base58Encode(undefined)\<close>, whose \<^verbatim>\<open>for ... of\<close> raises a TypeError.
\<close>

definition SPL_TOKEN_PROGRAM :: string where
  "SPL_TOKEN_PROGRAM = ''TokenkegQfeZyiNwAJbNbGKPFXCWuBvf9Ss623VQ5DA''"

definition SPL_TOKEN_2022_PROGRAM :: string where
  "SPL_TOKEN_2022_PROGRAM = ''TokenzQdBNbLqP5VEhdkAS6EPFLC1PHnBqCXEpPxuEb''"

text \<open>\<^verbatim>\<open>txBytes[offset]\<close>\<close>

definition rd :: "byte list \<Rightarrow> nat option \<Rightarrow> nat option" where
  "rd txBytes offset =
     (case offset of
        None \<Rightarrow> None
      | Some i \<Rightarrow> if i < length txBytes then Some (unat (txBytes ! i)) else None)"

text \<open>\<^verbatim>\<open>a + b\<close> and \<^verbatim>\<open>a * b\<close> on numbers that may be undefined or NaN.\<close>

definition js_plus :: "nat option \<Rightarrow> nat option \<Rightarrow> nat option" where
  "js_plus a b =
     (case a of None \<Rightarrow> None | Some x \<Rightarrow> (case b of None \<Rightarrow> None | Some y \<Rightarrow> Some (x + y)))"

definition js_times :: "nat option \<Rightarrow> nat option \<Rightarrow> nat option" where
  "js_times a b =
     (case a of None \<Rightarrow> None | Some x \<Rightarrow> (case b of None \<Rightarrow> None | Some y \<Rightarrow> Some (x * y)))"

text \<open>\<^verbatim>\<open>(v & 0x80) !== 0\<close>; \<^verbatim>\<open>undefined & 0x80\<close> is 0.\<close>

definition high_bit_set :: "nat option \<Rightarrow> bool" where
  "high_bit_set v = (case v of None \<Rightarrow> False | Some b \<Rightarrow> b AND 128 \<noteq> 0)"

text \<open>\<^verbatim>\<open>txBytes.slice(offset, offset + 32)\<close>: clamped to the buffer, empty for NaN.\<close>

definition slice32 :: "byte list \<Rightarrow> nat option \<Rightarrow> byte list" where
  "slice32 txBytes offset =
     (case offset of None \<Rightarrow> [] | Some i \<Rightarrow> take 32 (drop i txBytes))"

text \<open>The trip count of \<^verbatim>\<open>for (let i = 0; i < n; i++)\<close>: none when \<open>n\<close> is undefined.\<close>

definition loop_count :: "nat option \<Rightarrow> nat" where
  "loop_count n = (case n of None \<Rightarrow> 0 | Some k \<Rightarrow> k)"

text \<open>\<^verbatim>\<open>xs[i]\<close> on an array: undefined when the index is undefined or out of range.\<close>

definition at_index :: "'a list \<Rightarrow> nat option \<Rightarrow> 'a option" where
  "at_index xs i =
     (case i of None \<Rightarrow> None | Some k \<Rightarrow> if k < length xs then Some (xs ! k) else None)"

text \<open>\<^verbatim>\<open>ixAccountIndices[k]\<close>: the elements themselves may be undefined.\<close>

definition at_index_opt :: "nat option list \<Rightarrow> nat \<Rightarrow> nat option" where
  "at_index_opt xs k = (case at_index xs (Some k) of None \<Rightarrow> None | Some v \<Rightarrow> v)"

text \<open>\<^verbatim>\<open>base58Encode(accountKeys[i])\<close>: iterating \<^verbatim>\<open>undefined\<close> throws.\<close>

definition base58Encode_at :: "byte list list \<Rightarrow> nat option \<Rightarrow> js_error + string" where
  "base58Encode_at accountKeys i =
     (case at_index accountKeys i of
        None \<Rightarrow> Inl (Thrown ''bytes is not iterable'')
      | Some key \<Rightarrow> Inr (base58Encode key))"

text \<open>\<^verbatim>\<open>for (i < numAccounts) { accountKeys.push(txBytes.slice(offset, offset + 32)); offset += 32 }\<close>\<close>

fun read_account_keys ::
  "byte list \<Rightarrow> nat \<Rightarrow> nat option \<Rightarrow> byte list list \<Rightarrow> byte list list \<times> nat option" where
  "read_account_keys txBytes 0 offset accountKeys = (accountKeys, offset)"
| "read_account_keys txBytes (Suc n) offset accountKeys =
     read_account_keys txBytes n (js_plus offset (Some 32))
       (accountKeys @ [slice32 txBytes offset])"

text \<open>\<^verbatim>\<open>for (j < numIxAccounts) { ixAccountIndices.push(txBytes[offset]); offset += 1 }\<close>\<close>

fun read_ix_accounts ::
  "byte list \<Rightarrow> nat \<Rightarrow> nat option \<Rightarrow> nat option list \<Rightarrow> nat option list \<times> nat option" where
  "read_ix_accounts txBytes 0 offset ixAccountIndices = (ixAccountIndices, offset)"
| "read_ix_accounts txBytes (Suc n) offset ixAccountIndices =
     read_ix_accounts txBytes n (js_plus offset (Some 1))
       (ixAccountIndices @ [rd txBytes offset])"

text \<open>
  The instruction loop, \<open>n\<close> iterations left. \<open>Inr (Some payer)\<close> is a \<^verbatim>\<open>return\<close> from
  inside the loop, \<open>Inr None\<close> is the loop running to its end, \<open>Inl\<close> a throw.
\<close>

fun scan_instructions ::
  "byte list \<Rightarrow> byte list list \<Rightarrow> nat \<Rightarrow> nat option \<Rightarrow> js_error + string option" where
  "scan_instructions txBytes accountKeys 0 offset = Inr None"
| "scan_instructions txBytes accountKeys (Suc n) offset =
     (let programIdIndex = rd txBytes offset;
          offset1 = js_plus offset (Some 1);
          numIxAccounts = rd txBytes offset1;
          offset2 = js_plus offset1 (Some 1);
          (ixAccountIndices, offset3) =
             read_ix_accounts txBytes (loop_count numIxAccounts) offset2 [];
          dataLen = rd txBytes offset3;
          offset4 = js_plus offset3 (js_plus (Some 1) dataLen)
      in case base58Encode_at accountKeys programIdIndex of
           Inl e \<Rightarrow> Inl e
         | Inr programAddr \<Rightarrow>
             if programAddr = SPL_TOKEN_PROGRAM \<or> programAddr = SPL_TOKEN_2022_PROGRAM then
               if length ixAccountIndices \<ge> 4 then
                 (case base58Encode_at accountKeys (at_index_opt ixAccountIndices 3) of
                    Inl e \<Rightarrow> Inl e
                  | Inr payer \<Rightarrow> Inr (Some payer))
               else if length ixAccountIndices \<ge> 3 then
                 (case base58Encode_at accountKeys (at_index_opt ixAccountIndices 2) of
                    Inl e \<Rightarrow> Inl e
                  | Inr payer \<Rightarrow> Inr (Some payer))
               else scan_instructions txBytes accountKeys n offset4
             else scan_instructions txBytes accountKeys n offset4)"

text \<open>
  The body of the \<^verbatim>\<open>try\<close> once the bytes are there. \<open>Inr None\<close> is \<^verbatim>\<open>return null\<close>.
\<close>

definition solana_walk :: "byte list \<Rightarrow> js_error + string option" where
  "solana_walk txBytes =
     (let numSignatures = rd txBytes (Some 0);
          offset1 = js_plus (Some 0) (js_plus (Some 1) (js_times numSignatures (Some 64)));
          offset2 = (if high_bit_set (rd txBytes offset1) then js_plus offset1 (Some 1)
                     else offset1);
          offset3 = js_plus offset2 (Some 3);
          numAccounts = rd txBytes offset3;
          offset4 = js_plus offset3 (Some 1);
          (accountKeys, offset5) =
             read_account_keys txBytes (loop_count numAccounts) offset4 []
      in if length accountKeys = 0 then Inr None
         else
           let offset6 = js_plus offset5 (Some 32);
               numInstructions = rd txBytes offset6;
               offset7 = js_plus offset6 (Some 1)
           in case scan_instructions txBytes accountKeys (loop_count numInstructions) offset7 of
                Inl e \<Rightarrow> Inl e
              | Inr (Some payer) \<Rightarrow> Inr (Some payer)
              | Inr None \<Rightarrow>
                  (case base58Encode_at accountKeys (Some 0) of
                     Inl e \<Rightarrow> Inl e
                   | Inr payer \<Rightarrow> Inr (Some payer)))"

text \<open>
  \<^verbatim>\<open>extractSolanaFeePayer(base64Transaction)\<close>. Decoding base64 into a buffer is the
  platform's (\<^verbatim>\<open>Buffer.from(s, 'base64')\<close> or \<^verbatim>\<open>atob\<close>), a parameter here; it may throw. The
  whole body is inside \<^verbatim>\<open>try { ... } catch { return null }\<close>; \<open>None\<close> is null.
\<close>

definition extractSolanaFeePayer ::
  "('t \<Rightarrow> js_error + byte list) \<Rightarrow> 't \<Rightarrow> string option" where
  "extractSolanaFeePayer from_base64 base64Transaction =
     (case from_base64 base64Transaction of
        Inl e \<Rightarrow> None
      | Inr txBytes \<Rightarrow> (case solana_walk txBytes of Inl e \<Rightarrow> None | Inr r \<Rightarrow> r))"

section \<open>The Solana wire format\<close>

text \<open>
  A transaction as Solana serializes it: the signature count and the 64-byte signatures, an
  optional version byte (high bit set), the three header bytes, the account-key count and
  the 32-byte keys (the account table), the recent blockhash, the instruction count and the
  instructions, each a one-byte program-id index, a counted list of one-byte account
  indices and counted data. Every count is a compact-u16: seven bits to a byte, the low
  bits first, the high bit set on every byte but the last, so a count below 128 is one
  byte and a count from 128 on is two or three. \<open>serialize_transaction\<close> writes the bytes;
  bytes after the instructions (address-table lookups) are never read by the walk.
\<close>

record instruction =
  ix_programIdIndex :: byte
  ix_accountIndices :: "byte list"
  ix_data :: "byte list"

record transaction =
  tx_signatures :: "byte list list"
  tx_version :: "byte option"
  tx_header :: "byte \<times> byte \<times> byte"
  tx_accountKeys :: "byte list list"
  tx_recentBlockhash :: "byte list"
  tx_instructions :: "instruction list"

definition count_byte :: "nat \<Rightarrow> byte" where
  "count_byte n = of_nat n"

definition compact_u16 :: "nat \<Rightarrow> byte list" where
  "compact_u16 n =
     (if n < 128 then [count_byte n]
      else if n < 16384 then [count_byte (128 + n mod 128), count_byte (n div 128)]
      else [count_byte (128 + n mod 128), count_byte (128 + n div 128 mod 128),
            count_byte (n div 16384)])"

definition serialize_instruction :: "instruction \<Rightarrow> byte list" where
  "serialize_instruction ix =
     ix_programIdIndex ix # compact_u16 (length (ix_accountIndices ix)) @ ix_accountIndices ix
       @ compact_u16 (length (ix_data ix)) @ ix_data ix"

text \<open>The bytes before the instructions, the instruction count included.\<close>

definition serialize_header :: "transaction \<Rightarrow> byte list" where
  "serialize_header tx =
     compact_u16 (length (tx_signatures tx)) @ concat (tx_signatures tx)
     @ (case tx_version tx of None \<Rightarrow> [] | Some v \<Rightarrow> [v])
     @ (case tx_header tx of (h1, h2, h3) \<Rightarrow> [h1, h2, h3])
     @ compact_u16 (length (tx_accountKeys tx)) @ concat (tx_accountKeys tx)
     @ tx_recentBlockhash tx
     @ compact_u16 (length (tx_instructions tx))"

definition serialize_transaction :: "transaction \<Rightarrow> byte list" where
  "serialize_transaction tx =
     serialize_header tx @ concat (map serialize_instruction (tx_instructions tx))"

definition wf_instruction :: "nat \<Rightarrow> instruction \<Rightarrow> bool" where
  "wf_instruction numKeys ix =
     (unat (ix_programIdIndex ix) < numKeys
      \<and> length (ix_accountIndices ix) < 65536
      \<and> list_all (\<lambda>a. unat a < numKeys) (ix_accountIndices ix)
      \<and> length (ix_data ix) < 65536)"

definition wf_transaction :: "transaction \<Rightarrow> bool" where
  "wf_transaction tx =
     (length (tx_signatures tx) < 65536
      \<and> list_all (\<lambda>s. length s = 64) (tx_signatures tx)
      \<and> (case tx_version tx of
            None \<Rightarrow> (case tx_header tx of (h1, h2, h3) \<Rightarrow> unat h1 < 128)
          | Some v \<Rightarrow> 128 \<le> unat v)
      \<and> 0 < length (tx_accountKeys tx) \<and> length (tx_accountKeys tx) < 65536
      \<and> list_all (\<lambda>k. length k = 32) (tx_accountKeys tx)
      \<and> length (tx_recentBlockhash tx) = 32
      \<and> length (tx_instructions tx) < 65536
      \<and> list_all (wf_instruction (length (tx_accountKeys tx))) (tx_instructions tx))"

text \<open>
  The walk reads one byte for every count. \<open>short_transaction\<close> are the transactions all of
  whose counts are below 128, where one byte is the whole count; \<open>one_byte_instruction\<close>
  is an instruction laid out the way the walk takes it apart.
\<close>

definition short_instruction :: "instruction \<Rightarrow> bool" where
  "short_instruction ix =
     (length (ix_accountIndices ix) < 128 \<and> length (ix_data ix) < 128)"

definition short_transaction :: "transaction \<Rightarrow> bool" where
  "short_transaction tx =
     (length (tx_signatures tx) < 128 \<and> length (tx_accountKeys tx) < 128
      \<and> length (tx_instructions tx) < 128
      \<and> list_all short_instruction (tx_instructions tx))"

definition one_byte_instruction :: "instruction \<Rightarrow> byte list" where
  "one_byte_instruction ix =
     ix_programIdIndex ix # count_byte (length (ix_accountIndices ix)) # ix_accountIndices ix
       @ count_byte (length (ix_data ix)) # ix_data ix"

text \<open>
  The payer as the specification words it: the first instruction, in transaction order,
  whose program id resolves to one of the two SPL Token programs and that lists at least 3
  accounts gives the payer, its account 3 when it lists at least 4 and its account 2
  otherwise; when there is none, the payer is account-table entry 0.
\<close>

definition is_token_program :: "byte list \<Rightarrow> bool" where
  "is_token_program key =
     (base58Encode key = SPL_TOKEN_PROGRAM \<or> base58Encode key = SPL_TOKEN_2022_PROGRAM)"

definition is_token_transfer :: "byte list list \<Rightarrow> instruction \<Rightarrow> bool" where
  "is_token_transfer keys ix =
     (is_token_program (keys ! unat (ix_programIdIndex ix)) \<and> 3 \<le> length (ix_accountIndices ix))"

definition authority_key :: "byte list list \<Rightarrow> instruction \<Rightarrow> byte list" where
  "authority_key keys ix =
     (if 4 \<le> length (ix_accountIndices ix) then keys ! unat (ix_accountIndices ix ! 3)
      else keys ! unat (ix_accountIndices ix ! 2))"

definition spec_payer_key :: "transaction \<Rightarrow> byte list" where
  "spec_payer_key tx =
     (case find (is_token_transfer (tx_accountKeys tx)) (tx_instructions tx) of
        None \<Rightarrow> tx_accountKeys tx ! 0
      | Some ix \<Rightarrow> authority_key (tx_accountKeys tx) ix)"

text \<open>
  A TransferChecked-shaped payment: one signature, a legacy header, four accounts (fee
  payer, token account, authority, and the SPL Token program) and one instruction listing
  four accounts, the authority last.
\<close>

definition demo_fee_payer_key :: "byte list" where
  "demo_fee_payer_key =
     [11, 18, 25, 32, 39, 46, 53, 60, 67, 74, 81, 88, 95, 102, 109, 116, 123, 130,
     137, 144, 151, 158, 165, 172, 179, 186, 193, 200, 207, 214, 221, 228]"

definition demo_token_account_key :: "byte list" where
  "demo_token_account_key =
     [101, 114, 127, 140, 153, 166, 179, 192, 205, 218, 231, 3, 16, 29, 42, 55, 68,
     81, 94, 107, 120, 133, 146, 159, 172, 185, 198, 211, 224, 237, 9, 22]"

definition demo_authority_key :: "byte list" where
  "demo_authority_key =
     [57, 86, 115, 144, 173, 202, 231, 21, 50, 79, 108, 137, 166, 195, 224, 14, 43,
     72, 101, 130, 159, 188, 217, 7, 36, 65, 94, 123, 152, 181, 210, 0]"

definition spl_token_program_key :: "byte list" where
  "spl_token_program_key =
     [6, 221, 246, 225, 215, 101, 161, 147, 217, 203, 225, 70, 206, 235, 121, 172,
     28, 180, 133, 237, 95, 91, 55, 145, 58, 140, 245, 133, 126, 255, 0, 169]"

definition demo_transaction :: transaction where
  "demo_transaction =
     \<lparr> tx_signatures = [replicate 64 1],
       tx_version = None,
       tx_header = (1, 0, 1),
       tx_accountKeys =
         [demo_fee_payer_key, demo_token_account_key, demo_authority_key,
          spl_token_program_key],
       tx_recentBlockhash = replicate 32 9,
       tx_instructions =
         [\<lparr> ix_programIdIndex = 3, ix_accountIndices = [1, 1, 1, 2],
            ix_data = [12, 64, 66, 15, 0, 0, 0, 0, 0, 6] \<rparr>] \<rparr>"

text \<open>
  The same payment with a memo in front of the transfer: a fifth account, the Memo program
  (\<^verbatim>\<open>MemoSq4gqABAXKb96qnH8TysNcWxMyWCqXgDLGmfcHr\<close>), and a first instruction to it that lists
  no account and carries 128 bytes of text.
\<close>

definition memo_program_key :: "byte list" where
  "memo_program_key =
     [5, 74, 83, 90, 153, 41, 33, 6, 77, 36, 232, 113, 96, 218, 56, 124, 124, 53, 181,
     221, 188, 146, 187, 129, 228, 31, 168, 64, 65, 5, 68, 141]"

definition memo_instruction :: instruction where
  "memo_instruction =
     \<lparr> ix_programIdIndex = 4, ix_accountIndices = [], ix_data = replicate 128 65 \<rparr>"

definition transfer_instruction :: instruction where
  "transfer_instruction =
     \<lparr> ix_programIdIndex = 3, ix_accountIndices = [1, 1, 1, 2],
       ix_data = [12, 64, 66, 15, 0, 0, 0, 0, 0, 6] \<rparr>"

definition memo_transaction :: transaction where
  "memo_transaction =
     \<lparr> tx_signatures = [replicate 64 1],
       tx_version = None,
       tx_header = (1, 0, 2),
       tx_accountKeys =
         [demo_fee_payer_key, demo_token_account_key, demo_authority_key,
          spl_token_program_key, memo_program_key],
       tx_recentBlockhash = replicate 32 9,
       tx_instructions = [memo_instruction, transfer_instruction] \<rparr>"


section \<open>decodePaymentHeader (utils.ts, the copy in src/unnamed/part_002)\<close>

text \<open>
  What \<^verbatim>\<open>JSON.parse\<close> returns, and \<^verbatim>\<open>undefined\<close> for a property that is not there. An
  object is the list of its own properties.
\<close>

datatype jsval =
    JUndefined
  | JNull
  | JBool bool
  | JNum real
  | JStr string
  | JArr "jsval list"
  | JObj "(string \<times> jsval) list"

text \<open>JavaScript truthiness, as \<^verbatim>\<open>||\<close>, \<^verbatim>\<open>!\<close> and \<^verbatim>\<open>if\<close> test it.\<close>

fun truthy :: "jsval \<Rightarrow> bool" where
  "truthy JUndefined = False"
| "truthy JNull = False"
| "truthy (JBool b) = b"
| "truthy (JNum x) = (x \<noteq> 0)"
| "truthy (JStr s) = (s \<noteq> [])"
| "truthy (JArr xs) = True"
| "truthy (JObj kvs) = True"

text \<open>\<^verbatim>\<open>a || b\<close>\<close>

definition js_or :: "jsval \<Rightarrow> jsval \<Rightarrow> jsval" where
  "js_or a b = (if truthy a then a else b)"

text \<open>\<^verbatim>\<open>null\<close> and \<^verbatim>\<open>undefined\<close>: reading a property of either throws a TypeError.\<close>

fun nullish :: "jsval \<Rightarrow> bool" where
  "nullish JUndefined = True"
| "nullish JNull = True"
| "nullish v = False"

text \<open>
  \<^verbatim>\<open>v?.name\<close>, and \<^verbatim>\<open>v.name\<close> on a value that is not nullish. The names the decoder reads
  (payload, authorization, from, payer, x, signature, address, transaction, value, accepted,
  amount, network) are no properties of strings, numbers, booleans, arrays or of
  \<^verbatim>\<open>Object.prototype\<close>, so only an object's own properties answer.
\<close>

fun get :: "jsval \<Rightarrow> string \<Rightarrow> jsval" where
  "get (JObj kvs) name = (case map_of kvs name of None \<Rightarrow> JUndefined | Some v \<Rightarrow> v)"
| "get v name = JUndefined"

record decoded_payment =
  payer :: jsval
  amount :: jsval
  network :: jsval

text \<open>
  The platform the decoder calls: \<^verbatim>\<open>Buffer.from(h, 'base64').toString('utf-8')\<close> or
  \<^verbatim>\<open>atob(h)\<close>, \<^verbatim>\<open>JSON.parse\<close>, and the base64 decoding of \<^verbatim>\<open>payload.transaction\<close> into
  bytes. Each may throw.
\<close>

record platform =
  base64_to_utf8 :: "string \<Rightarrow> js_error + string"
  json_parse :: "string \<Rightarrow> js_error + jsval"
  base64_to_bytes :: "jsval \<Rightarrow> js_error + byte list"

definition string_or_null :: "string option \<Rightarrow> jsval" where
  "string_or_null r = (case r of None \<Rightarrow> JNull | Some s \<Rightarrow> JStr s)"

definition envelope_payer :: "jsval \<Rightarrow> jsval" where
  "envelope_payer parsed =
     js_or (get (get (get parsed ''payload'') ''authorization'') ''from'')
    (js_or (get parsed ''payer'')
    (js_or (get parsed ''from'')
    (js_or (get (get parsed ''payload'') ''from'')
    (js_or (get (get (get parsed ''x'') ''signature'') ''address'')
     JNull))))"

definition envelope_network :: "jsval \<Rightarrow> jsval" where
  "envelope_network parsed =
     js_or (get (get (get parsed ''payload'') ''authorization'') ''network'')
    (js_or (get parsed ''network'')
    (js_or (get (get parsed ''payload'') ''network'')
     JNull))"

definition SOLANA_MAINNET :: string where
  "SOLANA_MAINNET = ''solana:5eykt4UsFv8P8NJdTREpY1vzqKqZKvdp''"

text \<open>
  The \<^verbatim>\<open>try\<close> body after \<^verbatim>\<open>JSON.parse\<close>. \<^verbatim>\<open>parsed.payload\<close> throws when \<^verbatim>\<open>parsed\<close> is null; every
  other access is on \<^verbatim>\<open>parsed\<close> again, behind \<^verbatim>\<open>?.\<close>, or on \<^verbatim>\<open>parsed.payload\<close> once
  \<^verbatim>\<open>parsed.payload?.transaction\<close> is truthy.
\<close>

definition decode_parsed :: "platform \<Rightarrow> jsval \<Rightarrow> js_error + decoded_payment" where
  "decode_parsed P parsed =
     (if nullish parsed then Inl (Thrown ''Cannot read properties of null'')
      else
        let payer0 = envelope_payer parsed;
            transaction = get (get parsed ''payload'') ''transaction'';
            payer1 = (if \<not> truthy payer0 \<and> truthy transaction
                      then string_or_null (extractSolanaFeePayer (base64_to_bytes P) transaction)
                      else payer0);
            amount =
               js_or (get (get (get parsed ''payload'') ''authorization'') ''value'')
              (js_or (get (get parsed ''accepted'') ''amount'')
              (js_or (get parsed ''amount'')
              (js_or (get (get parsed ''payload'') ''amount'')
               JNull)));
            network0 = envelope_network parsed;
            network1 = (if \<not> truthy network0 \<and> truthy transaction \<and> truthy payer1
                        then JStr SOLANA_MAINNET else network0)
        in Inr \<lparr> payer = payer1, amount = amount, network = network1 \<rparr>)"

text \<open>\<^verbatim>\<open>try { body } catch { handler }\<close>\<close>

definition try_catch :: "(js_error + 'a) \<Rightarrow> (js_error \<Rightarrow> js_error + 'a) \<Rightarrow> js_error + 'a" where
  "try_catch body handler = (case body of Inl e \<Rightarrow> handler e | Inr v \<Rightarrow> Inr v)"

text \<open>The inner \<^verbatim>\<open>try\<close>: the header itself when base64 decoding throws.\<close>

definition decoded_text :: "platform \<Rightarrow> string \<Rightarrow> string" where
  "decoded_text P paymentHeader =
     (case base64_to_utf8 P paymentHeader of Inl e \<Rightarrow> paymentHeader | Inr decoded \<Rightarrow> decoded)"

definition decodePaymentHeader ::
  "platform \<Rightarrow> string option \<Rightarrow> js_error + decoded_payment option" where
  "decodePaymentHeader P paymentHeader =
     (case paymentHeader of
        None \<Rightarrow> Inr None
      | Some h \<Rightarrow>
          if h = [] then Inr None
          else try_catch
                 (case json_parse P (decoded_text P h) of
                    Inl e \<Rightarrow> Inl e
                  | Inr parsed \<Rightarrow>
                      (case decode_parsed P parsed of
                         Inl e \<Rightarrow> Inl e
                       | Inr d \<Rightarrow> Inr (Some d)))
                 (\<lambda>e. Inr None))"

section \<open>decodePaymentHeader (the copy in src/src/utils.ts)\<close>

text \<open>
  The repository holds a second \<^verbatim>\<open>utils.ts\<close>, src/src/utils.ts. Its walk stops at the account table and returns
  the first key, after checking that the key lies inside the buffer; its amount does not
  look at \<^verbatim>\<open>accepted.amount\<close>.
\<close>

definition extractSolanaFeePayer_src_utils ::
  "('t \<Rightarrow> js_error + byte list) \<Rightarrow> 't \<Rightarrow> string option" where
  "extractSolanaFeePayer_src_utils from_base64 base64Transaction =
     (case from_base64 base64Transaction of
        Inl e \<Rightarrow> None
      | Inr txBytes \<Rightarrow>
          let numSignatures = rd txBytes (Some 0);
              offset1 = js_plus (Some 0) (Some 1);
              offset2 = js_plus offset1 (js_times numSignatures (Some 64));
              firstByte = rd txBytes offset2;
              offset3 = (if high_bit_set firstByte then js_plus offset2 (Some 1) else offset2);
              offset4 = js_plus offset3 (Some 3);
              numAccounts = rd txBytes offset4;
              offset5 = js_plus offset4 (Some 1)
          in if (case numAccounts of None \<Rightarrow> False | Some n \<Rightarrow> n > 0)
                \<and> (case js_plus offset5 (Some 32) of
                      None \<Rightarrow> False
                    | Some e \<Rightarrow> e \<le> length txBytes)
             then Some (base58Encode (slice32 txBytes offset5))
             else None)"

definition decode_parsed_src_utils :: "platform \<Rightarrow> jsval \<Rightarrow> js_error + decoded_payment" where
  "decode_parsed_src_utils P parsed =
     (if nullish parsed then Inl (Thrown ''Cannot read properties of null'')
      else
        let payer0 = envelope_payer parsed;
            transaction = get (get parsed ''payload'') ''transaction'';
            payer1 = (if \<not> truthy payer0 \<and> truthy transaction
                      then string_or_null
                             (extractSolanaFeePayer_src_utils (base64_to_bytes P) transaction)
                      else payer0);
            amount =
               js_or (get (get (get parsed ''payload'') ''authorization'') ''value'')
              (js_or (get parsed ''amount'')
              (js_or (get (get parsed ''payload'') ''amount'')
               JNull));
            network0 = envelope_network parsed;
            network1 = (if \<not> truthy network0 \<and> truthy transaction \<and> truthy payer1
                        then JStr SOLANA_MAINNET else network0)
        in Inr \<lparr> payer = payer1, amount = amount, network = network1 \<rparr>)"

definition decodePaymentHeader_src_utils ::
  "platform \<Rightarrow> string option \<Rightarrow> js_error + decoded_payment option" where
  "decodePaymentHeader_src_utils P paymentHeader =
     (case paymentHeader of
        None \<Rightarrow> Inr None
      | Some h \<Rightarrow>
          if h = [] then Inr None
          else try_catch
                 (case json_parse P (decoded_text P h) of
                    Inl e \<Rightarrow> Inl e
                  | Inr parsed \<Rightarrow>
                      (case decode_parsed_src_utils P parsed of
                         Inl e \<Rightarrow> Inl e
                       | Inr d \<Rightarrow> Inr (Some d)))
                 (\<lambda>e. Inr None))"

section \<open>Example headers\<close>

text \<open>
  Three headers with what the platform makes of them: the base64 text, the JSON text it
  decodes to, the parsed value, and the bytes of the one transaction.
\<close>

definition demo_text_accepted :: string where
  "demo_text_accepted =
     ''{'' @ [CHR 0x22] @ ''accepted'' @ [CHR 0x22] @ '':{'' @ [CHR 0x22] @ ''amount''
     @ [CHR 0x22] @ '':'' @ [CHR 0x22] @ ''1000'' @ [CHR 0x22] @ ''}}''"

definition demo_text_evm :: string where
  "demo_text_evm =
     ''{'' @ [CHR 0x22] @ ''payload'' @ [CHR 0x22] @ '':{'' @ [CHR 0x22] @ ''authorization''
     @ [CHR 0x22] @ '':{'' @ [CHR 0x22] @ ''from'' @ [CHR 0x22] @ '':'' @ [CHR 0x22] @ ''0xabc''
     @ [CHR 0x22] @ '','' @ [CHR 0x22] @ ''value'' @ [CHR 0x22] @ '':'' @ [CHR 0x22] @ ''1000''
     @ [CHR 0x22] @ ''}},'' @ [CHR 0x22] @ ''accepted'' @ [CHR 0x22] @ '':{'' @ [CHR 0x22]
     @ ''amount'' @ [CHR 0x22] @ '':'' @ [CHR 0x22] @ ''5'' @ [CHR 0x22] @ ''}}''"

definition demo_text_truncated :: string where
  "demo_text_truncated =
     ''{'' @ [CHR 0x22] @ ''payload'' @ [CHR 0x22] @ '':{'' @ [CHR 0x22] @ ''transaction''
     @ [CHR 0x22] @ '':'' @ [CHR 0x22] @ ''AAAAAAE='' @ [CHR 0x22] @ ''}}''"

definition demo_header_accepted :: string where
  "demo_header_accepted = ''eyJhY2NlcHRlZCI6eyJhbW91bnQiOiIxMDAwIn19''"

definition demo_header_evm :: string where
  "demo_header_evm =
     ''eyJwYXlsb2FkIjp7ImF1dGhvcml6YXRpb24iOnsiZnJvbSI6IjB4YWJjIiwidmFsdWUiOiIxMDAwIn19LCJhY2NlcHRlZCI6eyJhbW91bnQiOiI1In19''"

definition demo_header_truncated :: string where
  "demo_header_truncated = ''eyJwYXlsb2FkIjp7InRyYW5zYWN0aW9uIjoiQUFBQUFBRT0ifX0=''"

definition demo_platform :: platform where
  "demo_platform =
     \<lparr> base64_to_utf8 = (\<lambda>h.
         if h = demo_header_accepted then Inr demo_text_accepted
         else if h = demo_header_evm then Inr demo_text_evm
         else if h = demo_header_truncated then Inr demo_text_truncated
         else Inl (Thrown ''not covered'')),
       json_parse = (\<lambda>s.
         if s = demo_text_accepted
         then Inr (JObj [(''accepted'', JObj [(''amount'', JStr ''1000'')])])
         else if s = demo_text_evm
         then Inr (JObj [(''payload'', JObj [(''authorization'',
                      JObj [(''from'', JStr ''0xabc''), (''value'', JStr ''1000'')])]),
                    (''accepted'', JObj [(''amount'', JStr ''5'')])])
         else if s = demo_text_truncated
         then Inr (JObj [(''payload'', JObj [(''transaction'', JStr ''AAAAAAE='')])])
         else Inl (Thrown ''SyntaxError'')),
       base64_to_bytes = (\<lambda>v.
         if v = JStr ''AAAAAAE='' then Inr [0, 0, 0, 0, 1]
         else Inl (Thrown ''not covered'')) \<rparr>"

section \<open>Where the two copies of the decoder agree\<close>

definition same_amount_source :: "jsval \<Rightarrow> bool" where
  "same_amount_source parsed =
     (truthy (get (get (get parsed ''payload'') ''authorization'') ''value'')
      \<or> \<not> truthy (get (get parsed ''accepted'') ''amount''))"

definition same_payer_source :: "platform \<Rightarrow> jsval \<Rightarrow> bool" where
  "same_payer_source P parsed =
     (truthy (envelope_payer parsed)
      \<or> \<not> truthy (get (get parsed ''payload'') ''transaction'')
      \<or> extractSolanaFeePayer_src_utils (base64_to_bytes P)
            (get (get parsed ''payload'') ''transaction'')
          = extractSolanaFeePayer (base64_to_bytes P)
              (get (get parsed ''payload'') ''transaction''))"

definition copies_agree_on :: "platform \<Rightarrow> string option \<Rightarrow> bool" where
  "copies_agree_on P paymentHeader =
     (case paymentHeader of
        None \<Rightarrow> True
      | Some h \<Rightarrow>
          (case json_parse P (decoded_text P h) of
             Inl e \<Rightarrow> True
           | Inr parsed \<Rightarrow> same_amount_source parsed \<and> same_payer_source P parsed))"

section \<open>validateResponse (validator.ts, in src/unnamed/part_001) with isEmptyResponse and hasErrorIndicators (utils.ts)\<close>

text \<open>
  The body is any JavaScript value (\<open>jsval\<close>), the status code an integer. The score is a
  JavaScript number: every \<^verbatim>\<open>meaningfulnessScore -= p\<close> is a \<open>double_sub\<close>, which rounds as
  the platform does (1.0 - 0.3 - 0.2 is a little below 0.5 there).
\<close>

record ValidationCheck =
  name :: string
  passed :: bool
  message :: string

record ValidationResult =
  valid :: bool
  checks :: "ValidationCheck list"
  meaningfulnessScore :: real
  reason :: "string option"

record ValidationConfig =
  customValidator :: "(jsval \<Rightarrow> int \<Rightarrow> js_error + ValidationResult) option"
  minResponseSize :: "real option"
  requiredFields :: "string list option"
  errorFields :: "string list option"
  rejectEmptyCollections :: "bool option"

text \<open>\<^verbatim>\<open>`${statusCode}`\<close> for an integer, and \<^verbatim>\<open>Array.prototype.join\<close>.\<close>

function show_nat :: "nat \<Rightarrow> string" where
  "show_nat n =
     (if n < 10 then [char_of (48 + n)] else show_nat (n div 10) @ [char_of (48 + n mod 10)])"
  by pat_completeness auto
termination
  by (relation "measure (\<lambda>n. n)") auto

declare show_nat.simps [simp del]

definition show_int :: "int \<Rightarrow> string" where
  "show_int i = (if i < 0 then CHR ''-'' # show_nat (nat (- i)) else show_nat (nat i))"

fun join :: "string \<Rightarrow> string list \<Rightarrow> string" where
  "join sep [] = []"
| "join sep [x] = x"
| "join sep (x # y # ys) = x @ sep @ join sep (y # ys)"

text \<open>\<^verbatim>\<open>String.prototype.trim\<close>: the white space and line terminators among the code units
  below 256.\<close>

definition is_whitespace :: "char \<Rightarrow> bool" where
  "is_whitespace c = ((of_char c :: nat) \<in> {9, 10, 11, 12, 13, 32, 160})"

definition trim :: "string \<Rightarrow> string" where
  "trim s = rev (dropWhile is_whitespace (rev (dropWhile is_whitespace s)))"

fun isEmptyResponse :: "jsval \<Rightarrow> real \<Rightarrow> bool" where
  "isEmptyResponse JUndefined minSize = True"
| "isEmptyResponse JNull minSize = True"
| "isEmptyResponse (JStr s) minSize = (s = [] \<or> real (length (trim s)) < minSize)"
| "isEmptyResponse (JArr xs) minSize = (length xs = 0)"
| "isEmptyResponse (JObj kvs) minSize = (length kvs = 0)"
| "isEmptyResponse (JBool b) minSize = False"
| "isEmptyResponse (JNum x) minSize = False"

text \<open>
  \<^verbatim>\<open>obj[field]\<close> for an own property: a key of an object, an index or \<^verbatim>\<open>length\<close> of an array.
  \<^verbatim>\<open>field in obj\<close> also holds for an inherited member, whose value is a function (or the
  prototype, an object without own keys): no error indicator, and never \<^verbatim>\<open>false\<close>.
\<close>

fun own_property :: "jsval \<Rightarrow> string \<Rightarrow> jsval" where
  "own_property (JObj kvs) field = (case map_of kvs field of None \<Rightarrow> JUndefined | Some v \<Rightarrow> v)"
| "own_property (JArr xs) field =
     (case find (\<lambda>i. show_nat i = field) [0 ..< length xs] of
        Some i \<Rightarrow> xs ! i
      | None \<Rightarrow> if field = ''length'' then JNum (real (length xs)) else JUndefined)"
| "own_property v field = JUndefined"

text \<open>A non-empty string, an object with keys, or \<^verbatim>\<open>true\<close>.\<close>

fun is_error_value :: "jsval \<Rightarrow> bool" where
  "is_error_value (JStr s) = (length s > 0)"
| "is_error_value (JArr xs) = (length xs > 0)"
| "is_error_value (JObj kvs) = (length kvs > 0)"
| "is_error_value (JBool b) = b"
| "is_error_value v = False"

text \<open>\<^verbatim>\<open>body && typeof body === 'object'\<close>\<close>

fun is_object :: "jsval \<Rightarrow> bool" where
  "is_object (JArr xs) = True"
| "is_object (JObj kvs) = True"
| "is_object v = False"

definition hasErrorIndicators :: "jsval \<Rightarrow> string list option \<Rightarrow> bool" where
  "hasErrorIndicators body errorFields_arg =
     (let errorFields = (case errorFields_arg of None \<Rightarrow> [''error'', ''errors''] | Some fs \<Rightarrow> fs)
      in if \<not> is_object body then False
         else if list_ex (\<lambda>field. is_error_value (own_property body field)) errorFields then True
         else if own_property body ''ok'' = JBool False \<or> own_property body ''success'' = JBool False
         then True
         else False)"

text \<open>
  Check 4 tests \<^verbatim>\<open>!(field in obj) || obj[field] === undefined || obj[field] === null\<close>:
  a member inherited from \<^verbatim>\<open>Object.prototype\<close> is in the object and not null.
\<close>

definition OBJECT_PROTOTYPE_MEMBERS :: "string list" where
  "OBJECT_PROTOTYPE_MEMBERS =
     [''constructor'', ''hasOwnProperty'', ''isPrototypeOf'', ''propertyIsEnumerable'',
      ''toLocaleString'', ''toString'', ''valueOf'', ''__proto__'', ''__defineGetter__'',
      ''__defineSetter__'', ''__lookupGetter__'', ''__lookupSetter__'']"

definition field_missing :: "(string \<times> jsval) list \<Rightarrow> string \<Rightarrow> bool" where
  "field_missing obj field =
     (case map_of obj field of
        Some v \<Rightarrow> nullish v
      | None \<Rightarrow> field \<notin> set OBJECT_PROTOTYPE_MEMBERS)"

definition missing_fields :: "jsval \<Rightarrow> string list \<Rightarrow> string list" where
  "missing_fields body required =
     (case body of
        JObj obj \<Rightarrow> filter (field_missing obj) required
      | _ \<Rightarrow> required)"

fun is_empty_collection :: "jsval \<Rightarrow> bool" where
  "is_empty_collection (JArr xs) = (length xs = 0)"
| "is_empty_collection (JObj kvs) = (length kvs = 0)"
| "is_empty_collection v = False"

fun checkEmptyCollections :: "jsval \<Rightarrow> bool" where
  "checkEmptyCollections (JArr xs) = (length xs = 0)"
| "checkEmptyCollections (JObj entries) =
     (if length entries = 0 then True
      else list_ex (\<lambda>(k, v). is_empty_collection v) entries)"
| "checkEmptyCollections v = False"

definition clamp01 :: "real \<Rightarrow> real" where
  "clamp01 x = max 0 (min 1 x)"

text \<open>
  The function keeps two mutable variables, \<^verbatim>\<open>checks\<close> and \<^verbatim>\<open>meaningfulnessScore\<close>; each of
  its six commented blocks (Check 1 to Check 6) updates the pair.
\<close>

type_synonym validation_state = "ValidationCheck list \<times> real"

definition check_status_code :: "int \<Rightarrow> bool \<Rightarrow> validation_state \<Rightarrow> validation_state" where
  "check_status_code statusCode isSuccessStatus st =
     (case st of (checks0, score0) \<Rightarrow>
        (checks0 @ [\<lparr> name = ''status_code'', passed = isSuccessStatus,
                      message = (if isSuccessStatus then ''Success status code''
                                 else ''Non-success status: '' @ show_int statusCode) \<rparr>],
         if \<not> isSuccessStatus then double_sub score0 lit_0_3 else score0))"

definition check_not_empty :: "bool \<Rightarrow> validation_state \<Rightarrow> validation_state" where
  "check_not_empty isEmpty st =
     (case st of (checks0, score0) \<Rightarrow>
        (checks0 @ [\<lparr> name = ''not_empty'', passed = \<not> isEmpty,
                      message = (if isEmpty then ''Response is empty or too small''
                                 else ''Response has content'') \<rparr>],
         if isEmpty then double_sub score0 lit_0_4 else score0))"

definition check_no_error_fields :: "bool \<Rightarrow> validation_state \<Rightarrow> validation_state" where
  "check_no_error_fields hasErrors st =
     (case st of (checks0, score0) \<Rightarrow>
        (checks0 @ [\<lparr> name = ''no_error_fields'', passed = \<not> hasErrors,
                      message = (if hasErrors then ''Response contains error indicators''
                                 else ''No error indicators found'') \<rparr>],
         if hasErrors then double_sub score0 lit_0_3 else score0))"

definition check_required_fields ::
  "jsval \<Rightarrow> ValidationConfig \<Rightarrow> validation_state \<Rightarrow> validation_state" where
  "check_required_fields body config st =
     (case st of (checks0, score0) \<Rightarrow>
        (case requiredFields config of
           None \<Rightarrow> (checks0, score0)
         | Some required \<Rightarrow>
             if length required > 0 then
               let missingFields = missing_fields body required;
                   hasRequired = (length missingFields = 0)
               in (checks0 @ [\<lparr> name = ''required_fields'', passed = hasRequired,
                      message = (if hasRequired then ''All required fields present''
                                 else ''Missing fields: '' @ join '', '' missingFields) \<rparr>],
                   if \<not> hasRequired then double_sub score0 lit_0_2 else score0)
             else (checks0, score0)))"

definition check_empty_collections ::
  "jsval \<Rightarrow> ValidationConfig \<Rightarrow> validation_state \<Rightarrow> validation_state" where
  "check_empty_collections body config st =
     (case st of (checks0, score0) \<Rightarrow>
        if rejectEmptyCollections config = Some True \<and> is_object body then
          let hasEmptyCollection = checkEmptyCollections body
          in (checks0 @ [\<lparr> name = ''non_empty_collections'', passed = \<not> hasEmptyCollection,
                 message = (if hasEmptyCollection
                            then ''Response contains empty arrays or objects''
                            else ''Collections have content'') \<rparr>],
              if hasEmptyCollection then double_sub score0 lit_0_1 else score0)
        else (checks0, score0))"

definition check_custom_validator ::
  "jsval \<Rightarrow> int \<Rightarrow> ValidationConfig \<Rightarrow> validation_state \<Rightarrow> validation_state" where
  "check_custom_validator body statusCode config st =
     (case st of (checks0, score0) \<Rightarrow>
        (case customValidator config of
           None \<Rightarrow> (checks0, score0)
         | Some validator \<Rightarrow>
             (case validator body statusCode of
                Inr customResult \<Rightarrow>
                  (checks0 @ checks customResult,
                   if \<not> valid customResult then double_sub score0 lit_0_3 else score0)
              | Inl (Thrown msg) \<Rightarrow>
                  (checks0 @ [\<lparr> name = ''custom_validator'', passed = False,
                      message = ''Custom validator error: '' @ msg \<rparr>],
                   score0))))"

definition validateResponse :: "jsval \<Rightarrow> int \<Rightarrow> ValidationConfig \<Rightarrow> ValidationResult" where
  "validateResponse body statusCode config =
     (let isSuccessStatus = (statusCode \<ge> 200 \<and> statusCode < 300);
          st1 = check_status_code statusCode isSuccessStatus ([], 1.0);
          isEmpty = isEmptyResponse body
                      (case minResponseSize config of None \<Rightarrow> 2 | Some m \<Rightarrow> m);
          st2 = check_not_empty isEmpty st1;
          hasErrors = hasErrorIndicators body (errorFields config);
          st3 = check_no_error_fields hasErrors st2;
          st4 = check_required_fields body config st3;
          st5 = check_empty_collections body config st4;
          (checks6, score6) = check_custom_validator body statusCode config st5;
          score7 = clamp01 score6;
          valid1 = (score7 \<ge> 0.5 \<and> isSuccessStatus \<and> \<not> isEmpty);
          reason1 = (if \<not> valid1
                     then Some (join ''; '' (map message (filter (\<lambda>c. \<not> passed c) checks6)))
                     else None)
      in \<lparr> valid = valid1, checks = checks6, meaningfulnessScore = score7, reason = reason1 \<rparr>)"

text \<open>
  The score as the specification words it: 1.0 reduced by the fixed penalty of the category
  of each check recorded as failed, clamped to [0, 1]. The penalties are subtracted one
  after the other, in the order of the checks, each subtraction rounded as the platform
  rounds it.
\<close>

definition penalty_of :: "string \<Rightarrow> real option" where
  "penalty_of check_name =
     (if check_name = ''status_code'' then Some lit_0_3
      else if check_name = ''not_empty'' then Some lit_0_4
      else if check_name = ''no_error_fields'' then Some lit_0_3
      else if check_name = ''required_fields'' then Some lit_0_2
      else if check_name = ''non_empty_collections'' then Some lit_0_1
      else if check_name = ''custom_validator'' then Some lit_0_3
      else None)"

definition penalise :: "real \<Rightarrow> ValidationCheck \<Rightarrow> real" where
  "penalise score c =
     (if passed c then score
      else case penalty_of (name c) of None \<Rightarrow> score | Some p \<Rightarrow> double_sub score p)"

definition apply_penalties :: "real \<Rightarrow> ValidationCheck list \<Rightarrow> real" where
  "apply_penalties score cs = foldl penalise score cs"

definition claimed_score :: "ValidationCheck list \<Rightarrow> real" where
  "claimed_score cs = clamp01 (apply_penalties 1.0 cs)"

text \<open>What Check 6 contributes: the checks it appends and what it does to the score.\<close>

definition custom_validator_checks :: "jsval \<Rightarrow> int \<Rightarrow> ValidationConfig \<Rightarrow> ValidationCheck list" where
  "custom_validator_checks body statusCode config =
     (case customValidator config of
        None \<Rightarrow> []
      | Some validator \<Rightarrow>
          (case validator body statusCode of
             Inr customResult \<Rightarrow> checks customResult
           | Inl (Thrown msg) \<Rightarrow>
               [\<lparr> name = ''custom_validator'', passed = False,
                   message = ''Custom validator error: '' @ msg \<rparr>]))"

definition custom_validator_penalised ::
  "jsval \<Rightarrow> int \<Rightarrow> ValidationConfig \<Rightarrow> real \<Rightarrow> real" where
  "custom_validator_penalised body statusCode config score =
     (case customValidator config of
        None \<Rightarrow> score
      | Some validator \<Rightarrow>
          (case validator body statusCode of
             Inr customResult \<Rightarrow>
               if valid customResult then score else double_sub score lit_0_3
           | Inl e \<Rightarrow> score))"

text \<open>The checks validateResponse records itself: all but those of Check 6.\<close>

definition own_checks :: "jsval \<Rightarrow> int \<Rightarrow> ValidationConfig \<Rightarrow> ValidationCheck list" where
  "own_checks body statusCode config =
     take (length (checks (validateResponse body statusCode config))
             - length (custom_validator_checks body statusCode config))
       (checks (validateResponse body statusCode config))"

text \<open>One block extends the checks and applies the penalties of what it appends.\<close>

definition penalised :: "validation_state \<Rightarrow> validation_state \<Rightarrow> bool" where
  "penalised st st' =
     (\<exists>new. fst st' = fst st @ new \<and> snd st' = apply_penalties (snd st) new)"

text \<open>A configuration with nothing set.\<close>

definition plain_config :: ValidationConfig where
  "plain_config =
     \<lparr> customValidator = None, minResponseSize = None, requiredFields = None,
       errorFields = None, rejectEmptyCollections = None \<rparr>"

text \<open>A configuration whose custom validator throws, and a healthy body.\<close>

definition throwing_config :: ValidationConfig where
  "throwing_config =
     \<lparr> customValidator = Some (\<lambda>body statusCode. Inl (Thrown ''boom'')),
       minResponseSize = None, requiredFields = None, errorFields = None,
       rejectEmptyCollections = None \<rparr>"

definition demo_body :: jsval where
  "demo_body = JObj [(''data'', JNum 1)]"

section \<open>RefundExecutor (the refund executor over the WebSocket channel, in src/unnamed/part_004)\<close>

text \<open>
  A refund instruction as the server pushes it (the fields the executor reads; \<^verbatim>\<open>id\<close> and
  \<^verbatim>\<open>network\<close> are \<open>refund_id\<close> and \<open>refund_network\<close> here). Amounts, caps and counters
  are JavaScript numbers: doubles, added and multiplied with \<open>double_add\<close> and
  \<open>double_mul\<close>.
\<close>

record PendingRefund =
  refund_id :: string
  url :: string
  refund_network :: string
  amountCents :: real
  amountUsd :: real
  recipientAddress :: string

text \<open>
  The configuration: \<^verbatim>\<open>enabled\<close> and \<^verbatim>\<open>maxRefundUsd\<close> of an endpoint override are optional, so
  are the two caps; \<^verbatim>\<open>endpoints\<close> in the order of \<^verbatim>\<open>Object.entries\<close>; of the two callbacks,
  whether they are configured.
\<close>

record EndpointRefundConfig =
  enabled :: "bool option"
  endpoint_maxRefundUsd :: "real option"

record ResolvedRefundConfig =
  maxRefundUsd :: real
  dailyCapUsd :: "real option"
  monthlyCapUsd :: "real option"
  endpoints :: "(string \<times> EndpointRefundConfig) list"
  onRefund :: bool
  onRefundError :: bool

text \<open>
  What \<^verbatim>\<open>executeRefundTx\<close> resolves to: success with transaction hash, raw amount and gas cost,
  or failure with an optional error text and an optional \<^verbatim>\<open>retryable\<close> flag. Then the messages
  written to the socket and the callbacks invoked.
\<close>

datatype tx_result =
    TxSuccess string string real
  | TxFailure "string option" "bool option"

datatype ws_message =
    RefundRejected string string string
  | RefundExecuting string
  | RefundConfirmed string string string string string real

datatype callback =
    OnRefund string string
  | OnRefundError string string bool

text \<open>
  The executor's fields, and what it did so far: the messages sent, the lines logged, the
  instructions handed to \<^verbatim>\<open>executeRefundTx\<close>, the callbacks invoked. \<open>reconnectTimer\<close> holds
  the delay of the pending \<^verbatim>\<open>setTimeout\<close>; \<open>wsOpen\<close> is \<^verbatim>\<open>ws?.readyState === 1\<close>.
\<close>

record RefundExecutor =
  debug :: bool
  wsOpen :: bool
  reconnectTimer :: "nat option"
  reconnectAttempts :: nat
  isShuttingDown :: bool
  todayRefundedCents :: real
  monthRefundedCents :: real
  lastCapResetDate :: string
  lastCapResetMonth :: string
  processedRefundIds :: "string set"
  sent :: "ws_message list"
  logged :: "string list"
  executions :: "PendingRefund list"
  callbacks :: "callback list"

text \<open>
  The platform: \<^verbatim>\<open>new RegExp('^' + pattern.replace(/\*/g, '.*') + '$').test(url)\<close>, which throws
  on a pattern that is no regular expression, and the conversion of a number to text in a
  template literal. One delivery of \<^verbatim>\<open>refund_required\<close>: the instruction, the two readings of
  the clock (\<^verbatim>\<open>new Date().toISOString()\<close>) and what the chain answers if asked.
\<close>

record refund_platform =
  regex_test :: "string \<Rightarrow> string \<Rightarrow> js_error + bool"
  number_to_string :: "real \<Rightarrow> string"

record refund_input =
  refund :: PendingRefund
  clock_date :: string
  clock_month :: string
  chain_outcome :: tx_result

definition baseReconnectDelay :: nat where
  "baseReconnectDelay = 1000"

definition persistentRetryDelay :: nat where
  "persistentRetryDelay = 60000"

definition fastPhaseAttempts :: nat where
  "fastPhaseAttempts = 5"

text \<open>The field initialisers of the class; the clock gives the two reset markers.\<close>

definition new_RefundExecutor :: "string \<Rightarrow> bool \<Rightarrow> RefundExecutor" where
  "new_RefundExecutor iso_now debug_flag =
     \<lparr> debug = debug_flag, wsOpen = False, reconnectTimer = None, reconnectAttempts = 0,
       isShuttingDown = False, todayRefundedCents = 0, monthRefundedCents = 0,
       lastCapResetDate = takeWhile (\<lambda>c. c \<noteq> CHR ''T'') iso_now,
       lastCapResetMonth = take 7 iso_now,
       processedRefundIds = {}, sent = [], logged = [], executions = [], callbacks = [] \<rparr>"

text \<open>\<^verbatim>\<open>log\<close> (prints only when \<^verbatim>\<open>debug\<close>) and \<^verbatim>\<open>sendMessage\<close>.\<close>

definition log_line :: "RefundExecutor \<Rightarrow> string \<Rightarrow> RefundExecutor" where
  "log_line st msg = (if debug st then st\<lparr> logged := logged st @ [msg] \<rparr> else st)"

definition sendMessage :: "RefundExecutor \<Rightarrow> ws_message \<Rightarrow> RefundExecutor" where
  "sendMessage st msg =
     (if wsOpen st then st\<lparr> sent := sent st @ [msg] \<rparr>
      else log_line st ''Cannot send message - WebSocket not connected'')"

definition scheduleReconnect :: "RefundExecutor \<Rightarrow> RefundExecutor" where
  "scheduleReconnect st =
     (if isShuttingDown st then st
      else
        let (delay, st1) =
              (if reconnectAttempts st < fastPhaseAttempts
               then (baseReconnectDelay * 2 ^ reconnectAttempts st, st)
               else (persistentRetryDelay,
                     if reconnectAttempts st = fastPhaseAttempts
                     then log_line st ''Server unreachable, retrying every 60s'' else st))
        in st1\<lparr> reconnectAttempts := reconnectAttempts st1 + 1, reconnectTimer := Some delay \<rparr>)"

text \<open>\<^verbatim>\<open>getEndpointConfig\<close>: the first pattern that matches wins.\<close>

fun find_endpoint ::
  "refund_platform \<Rightarrow> (string \<times> EndpointRefundConfig) list \<Rightarrow> string
   \<Rightarrow> js_error + EndpointRefundConfig option" where
  "find_endpoint P [] target = Inr None"
| "find_endpoint P ((pattern, config) # rest) target =
     (case regex_test P pattern target of
        Inl e \<Rightarrow> Inl e
      | Inr matched \<Rightarrow> if matched then Inr (Some config) else find_endpoint P rest target)"

definition getEndpointConfig ::
  "refund_platform \<Rightarrow> ResolvedRefundConfig \<Rightarrow> string \<Rightarrow> js_error + EndpointRefundConfig option" where
  "getEndpointConfig P config target = find_endpoint P (endpoints config) target"

text \<open>
  \<^verbatim>\<open>executeRefundTx\<close>: the network picks the EVM or the Solana executor, whose answer is
  \<open>outcome\<close>; any other network fails at once and is not retryable.
\<close>

definition starts_with :: "string \<Rightarrow> string \<Rightarrow> bool" where
  "starts_with p s = (take (length p) s = p)"

definition executeRefundTx :: "tx_result \<Rightarrow> PendingRefund \<Rightarrow> tx_result" where
  "executeRefundTx outcome r =
     (let network = refund_network r
      in if starts_with ''eip155:'' network \<or> network = ''base'' \<or> network = ''ethereum''
         then outcome
         else if network = ''solana'' \<or> starts_with ''solana:'' network
         then outcome
         else TxFailure (Some (''Unsupported network: '' @ network)) (Some False))"

text \<open>The lazy reset of the counters, and \<^verbatim>\<open>if (cap) { if (refunded + cents > Math.floor(cap * 100)) ... }\<close>.\<close>

definition reset_caps :: "RefundExecutor \<Rightarrow> string \<Rightarrow> string \<Rightarrow> RefundExecutor" where
  "reset_caps st today thisMonth =
     (let st1 = (if today \<noteq> lastCapResetDate st
                 then st\<lparr> todayRefundedCents := 0, lastCapResetDate := today \<rparr> else st)
      in if thisMonth \<noteq> lastCapResetMonth st1
         then st1\<lparr> monthRefundedCents := 0, lastCapResetMonth := thisMonth \<rparr> else st1)"

definition cap_exceeded :: "real option \<Rightarrow> real \<Rightarrow> real \<Rightarrow> bool" where
  "cap_exceeded capUsd refundedCents cents =
     (case capUsd of
        None \<Rightarrow> False
      | Some cap \<Rightarrow>
          if cap \<noteq> 0
          then double_add refundedCents cents > of_int \<lfloor>double_mul cap 100\<rfloor>
          else False)"

text \<open>\<^verbatim>\<open>endpointConfig?.enabled === false\<close> and \<^verbatim>\<open>endpointConfig?.maxRefundUsd ?? this.config.maxRefundUsd\<close>.\<close>

definition endpoint_disabled :: "EndpointRefundConfig option \<Rightarrow> bool" where
  "endpoint_disabled endpointConfig =
     (case endpointConfig of None \<Rightarrow> False | Some ec \<Rightarrow> enabled ec = Some False)"

definition effective_max :: "ResolvedRefundConfig \<Rightarrow> EndpointRefundConfig option \<Rightarrow> real" where
  "effective_max config endpointConfig =
     (case endpointConfig of
        None \<Rightarrow> maxRefundUsd config
      | Some ec \<Rightarrow>
          (case endpoint_maxRefundUsd ec of None \<Rightarrow> maxRefundUsd config | Some m \<Rightarrow> m))"

text \<open>
  \<^verbatim>\<open>processSingleRefund\<close> is an \<^verbatim>\<open>async\<close> function with one \<^verbatim>\<open>await\<close> that gives control back to
  the event loop: \<^verbatim>\<open>await this.executeRefundTx(refund)\<close>. \<open>begin_refund\<close> is the part that
  runs when the message arrives, up to that \<^verbatim>\<open>await\<close> (\<open>Awaiting\<close>) or to a \<^verbatim>\<open>return\<close>
  (\<open>Returned\<close>); \<open>complete_refund\<close> is the part that runs when the execution has settled.
  \<open>catch_error\<close> is the \<^verbatim>\<open>catch\<close> block. The two callbacks are the user's; they are taken to
  return, and what they do is outside the executor.
\<close>

datatype 'a progress = Returned 'a | Awaiting 'a

definition catch_error ::
  "ResolvedRefundConfig \<Rightarrow> RefundExecutor \<Rightarrow> PendingRefund \<Rightarrow> string \<Rightarrow> RefundExecutor" where
  "catch_error config st r msg =
     (let st1 = log_line st ''Error processing refund''
      in if onRefundError config
         then st1\<lparr> callbacks := callbacks st1 @ [OnRefundError (refund_id r) msg True] \<rparr>
         else st1)"

definition begin_refund ::
  "refund_platform \<Rightarrow> ResolvedRefundConfig \<Rightarrow> RefundExecutor \<Rightarrow> refund_input
   \<Rightarrow> RefundExecutor progress" where
  "begin_refund P config st inp =
     (let r = refund inp
      in if refund_id r \<in> processedRefundIds st
         then Returned (log_line st ''Refund already processed in this session'')
         else
           case getEndpointConfig P config (url r) of
             Inl (Thrown msg) \<Rightarrow> Returned (catch_error config st r msg)
           | Inr endpointConfig \<Rightarrow>
               if endpoint_disabled endpointConfig
               then Returned (sendMessage (log_line st ''Refunds disabled for endpoint'')
                       (RefundRejected (refund_id r) ''OTHER''
                          ''Refunds disabled for this endpoint''))
               else
                 let maxUsd = effective_max config endpointConfig
                 in if amountUsd r > maxUsd
                    then Returned (sendMessage (log_line st ''Refund exceeds max'')
                            (RefundRejected (refund_id r) ''EXCEEDED_CAP''
                               (''Amount '' @ number_to_string P (amountUsd r)
                                  @ '' exceeds max '' @ number_to_string P maxUsd)))
                    else
                      let today = takeWhile (\<lambda>c. c \<noteq> CHR ''T'') (clock_date inp);
                          thisMonth = take 7 (clock_month inp);
                          st1 = reset_caps st today thisMonth
                      in if cap_exceeded (dailyCapUsd config) (todayRefundedCents st1)
                              (amountCents r)
                         then Returned (sendMessage (log_line st1 ''Daily cap exceeded'')
                                 (RefundRejected (refund_id r) ''EXCEEDED_CAP''
                                    ''Daily refund cap exceeded''))
                         else if cap_exceeded (monthlyCapUsd config) (monthRefundedCents st1)
                                   (amountCents r)
                         then Returned (sendMessage (log_line st1 ''Monthly cap exceeded'')
                                 (RefundRejected (refund_id r) ''EXCEEDED_CAP''
                                    ''Monthly refund cap exceeded''))
                         else
                           let st2 = sendMessage st1 (RefundExecuting (refund_id r))
                           in Awaiting (st2\<lparr> executions := executions st2 @ [r] \<rparr>))"

definition complete_refund ::
  "ResolvedRefundConfig \<Rightarrow> RefundExecutor \<Rightarrow> PendingRefund \<Rightarrow> tx_result \<Rightarrow> RefundExecutor" where
  "complete_refund config st r result =
     (case result of
        TxSuccess txHash amountRaw gasCostCents \<Rightarrow>
          let st1 = st\<lparr> processedRefundIds := insert (refund_id r) (processedRefundIds st) \<rparr>;
              st2 = sendMessage st1
                      (RefundConfirmed (refund_id r) txHash (refund_network r) amountRaw
                         ''USDC'' gasCostCents);
              st3 = st2\<lparr> todayRefundedCents :=
                           double_add (todayRefundedCents st2) (amountCents r),
                         monthRefundedCents :=
                           double_add (monthRefundedCents st2) (amountCents r) \<rparr>
          in if onRefund config
             then st3\<lparr> callbacks := callbacks st3 @ [OnRefund (refund_id r) txHash] \<rparr>
             else st3
      | TxFailure err retryable \<Rightarrow>
          let st1 = log_line st ''Refund execution failed'';
              st2 = (if retryable \<noteq> Some True
                     then sendMessage st1
                            (RefundRejected (refund_id r) ''OTHER''
                               (case err of
                                  None \<Rightarrow> ''Execution failed''
                                | Some e \<Rightarrow> if e = [] then ''Execution failed'' else e))
                     else st1)
          in if onRefundError config
             then st2\<lparr> callbacks := callbacks st2 @
                    [OnRefundError (refund_id r)
                       (case err of
                          None \<Rightarrow> ''Unknown error''
                        | Some e \<Rightarrow> if e = [] then ''Unknown error'' else e)
                       (case retryable of None \<Rightarrow> True | Some b \<Rightarrow> b)] \<rparr>
             else st2)"

text \<open>One instruction processed from start to end, and a list of them one after the other.\<close>

definition processSingleRefund ::
  "refund_platform \<Rightarrow> ResolvedRefundConfig \<Rightarrow> RefundExecutor \<Rightarrow> refund_input \<Rightarrow> RefundExecutor" where
  "processSingleRefund P config st inp =
     (case begin_refund P config st inp of
        Returned st1 \<Rightarrow> st1
      | Awaiting st1 \<Rightarrow>
          complete_refund config st1 (refund inp)
            (executeRefundTx (chain_outcome inp) (refund inp)))"

fun process_sequentially ::
  "refund_platform \<Rightarrow> ResolvedRefundConfig \<Rightarrow> RefundExecutor \<Rightarrow> refund_input list
   \<Rightarrow> RefundExecutor" where
  "process_sequentially P config st [] = st"
| "process_sequentially P config st (inp # inps) =
     process_sequentially P config (processSingleRefund P config st inp) inps"

text \<open>
  The event loop: \<^verbatim>\<open>ws.onmessage\<close> calls \<^verbatim>\<open>handleMessage\<close> without awaiting it, so a message
  that arrives while an execution is pending is handled at once. \<open>Delivered\<close> is a
  \<^verbatim>\<open>refund_required\<close> message arriving, \<open>Settled k\<close> the \<open>k\<close>-th pending execution settling.
\<close>

datatype loop_event = Delivered refund_input | Settled nat

fun run_event_loop ::
  "refund_platform \<Rightarrow> ResolvedRefundConfig \<Rightarrow> RefundExecutor \<times> refund_input list
   \<Rightarrow> loop_event list \<Rightarrow> RefundExecutor \<times> refund_input list" where
  "run_event_loop P config (st, pending) [] = (st, pending)"
| "run_event_loop P config (st, pending) (Delivered inp # evs) =
     run_event_loop P config
       (case begin_refund P config st inp of
          Returned st1 \<Rightarrow> (st1, pending)
        | Awaiting st1 \<Rightarrow> (st1, pending @ [inp])) evs"
| "run_event_loop P config (st, pending) (Settled k # evs) =
     run_event_loop P config
       (if k < length pending
        then (complete_refund config st (refund (pending ! k))
                (executeRefundTx (chain_outcome (pending ! k)) (refund (pending ! k))),
              take k pending @ drop (Suc k) pending)
        else (st, pending)) evs"

text \<open>
  The cap decision as the specification words it (\<^verbatim>\<open>checkCaps\<close>: allow, or deny with a
  reason), evaluated in order: endpoint explicitly disabled, per-request amount above the
  effective maximum, daily cap would be exceeded, monthly cap would be exceeded. \<open>None\<close> is
  allow; the counters are those after the lazy reset.
\<close>

definition checkCaps ::
  "refund_platform \<Rightarrow> ResolvedRefundConfig \<Rightarrow> EndpointRefundConfig option \<Rightarrow> RefundExecutor
   \<Rightarrow> PendingRefund \<Rightarrow> (string \<times> string) option" where
  "checkCaps P config endpointConfig counters r =
     (if endpoint_disabled endpointConfig
      then Some (''OTHER'', ''Refunds disabled for this endpoint'')
      else if amountUsd r > effective_max config endpointConfig
      then Some (''EXCEEDED_CAP'',
                 ''Amount '' @ number_to_string P (amountUsd r) @ '' exceeds max ''
                   @ number_to_string P (effective_max config endpointConfig))
      else if cap_exceeded (dailyCapUsd config) (todayRefundedCents counters) (amountCents r)
      then Some (''EXCEEDED_CAP'', ''Daily refund cap exceeded'')
      else if cap_exceeded (monthlyCapUsd config) (monthRefundedCents counters) (amountCents r)
      then Some (''EXCEEDED_CAP'', ''Monthly refund cap exceeded'')
      else None)"

definition today_of :: "refund_input \<Rightarrow> string" where
  "today_of inp = takeWhile (\<lambda>c. c \<noteq> CHR ''T'') (clock_date inp)"

definition month_of :: "refund_input \<Rightarrow> string" where
  "month_of inp = take 7 (clock_month inp)"

text \<open>
  An executor with a daily cap of 50 USD, a monthly cap of 500 USD, 4950 cents refunded
  today, and instructions of a given id and amount on the same day.
\<close>

definition demo_refund_platform :: refund_platform where
  "demo_refund_platform =
     \<lparr> regex_test = (\<lambda>pattern target. Inr (pattern = ''*'' \<or> pattern = target)),
       number_to_string = (\<lambda>x. if x = 1 then ''1'' else ''0.5'') \<rparr>"

definition demo_config :: ResolvedRefundConfig where
  "demo_config =
     \<lparr> maxRefundUsd = 1, dailyCapUsd = Some 50, monthlyCapUsd = Some 500, endpoints = [],
       onRefund = False, onRefundError = False \<rparr>"

definition demo_executor :: RefundExecutor where
  "demo_executor =
     (new_RefundExecutor ''2026-03-05T10:00:00.000Z'' False)
       \<lparr> wsOpen := True, todayRefundedCents := 4950, monthRefundedCents := 4950 \<rparr>"

definition demo_refund :: "string \<Rightarrow> real \<Rightarrow> refund_input" where
  "demo_refund rid cents =
     \<lparr> refund = \<lparr> refund_id = rid, url = ''https://api.example.com/data'',
                    refund_network = ''base'', amountCents = cents, amountUsd = cents / 100,
                    recipientAddress = ''0xabc'' \<rparr>,
       clock_date = ''2026-03-05T11:30:00.000Z'', clock_month = ''2026-03-05T11:30:00.000Z'',
       chain_outcome = TxSuccess ''0xhash'' ''500000'' 1 \<rparr>"




definition demo_overlap :: "loop_event list" where
  "demo_overlap =
     [Delivered (demo_refund ''r1'' 50), Delivered (demo_refund ''r1'' 50), Settled 0, Settled 0]"

section \<open>Properties of the rounding to a double\<close>

lemma pow2_pos: "0 < pow2 e"
  by (simp add: pow2_def)


lemma round_half_even_of_int: "round_half_even (of_int k) = k"
  by (simp add: round_half_even_def Let_def)


lemma round_to_double_eval:
  "x \<noteq> 0 \<Longrightarrow> double_exponent x = e \<Longrightarrow> round_half_even (x / pow2 (e - 52)) = k
   \<Longrightarrow> round_to_double x = of_int k * pow2 (e - 52)"
  by (simp add: round_to_double_def Let_def)

lemma round_to_double_exact:
  "double_exponent x = e \<Longrightarrow> x / pow2 (e - 52) = of_int k \<Longrightarrow> round_to_double x = x"
proof (cases "x = 0")
  case True
  then show ?thesis by (simp add: round_to_double_def)
next
  case False
  assume e: "double_exponent x = e" and k: "x / pow2 (e - 52) = of_int k"
  have "round_to_double x = of_int k * pow2 (e - 52)"
    using False e k by (simp add: round_to_double_def Let_def round_half_even_of_int)
  also have "\<dots> = x"
    using k pow2_pos [of "e - 52"] by (simp add: field_simps)
  finally show ?thesis .
qed

lemma bit_length_bounds:
  "0 < n \<Longrightarrow> 2 ^ (bit_length n - 1) \<le> n \<and> n < 2 ^ bit_length n"
proof (induction n rule: bit_length.induct)
  case (1 n)
  show ?case
  proof (cases "n div 2 = 0")
    case True
    then have "n = 1" using "1.prems" by presburger
    then show ?thesis by (simp add: bit_length.simps)
  next
    case False
    then have ih: "2 ^ (bit_length (n div 2) - 1) \<le> n div 2 \<and> n div 2 < 2 ^ bit_length (n div 2)"
      using "1.IH" "1.prems" by simp
    have bl: "bit_length n = Suc (bit_length (n div 2))"
      using "1.prems" by (subst bit_length.simps) simp
    have pos: "0 < bit_length (n div 2)"
      using False by (subst bit_length.simps) simp
    then obtain b where b: "bit_length (n div 2) = Suc b"
      by (cases "bit_length (n div 2)") auto
    have "2 * 2 ^ b \<le> n" using ih b by simp presburger
    moreover have "n < 2 * 2 ^ Suc b" using ih b by simp presburger
    ultimately show ?thesis by (simp add: bl b)
  qed
qed

lemma round_to_double_of_nat:
  assumes "n < 2 ^ 53"
  shows "round_to_double (real n) = real n"
proof (cases "n = 0")
  case True
  then show ?thesis by (simp add: round_to_double_def)
next
  case False
  then have n: "0 < n" by simp
  define b where "b = bit_length n - 1"
  have bl: "bit_length n = Suc b"
    using bit_length_bounds [OF n] n unfolding b_def
    by (cases "bit_length n") auto
  have lo: "2 ^ b \<le> n" using bit_length_bounds [OF n] by (simp add: b_def)
  have "(2::nat) ^ b < 2 ^ 53" using lo assms by linarith
  then have "b < 53" by (simp only: power_strict_increasing_iff [of 2 b 53] one_less_numeral_iff semiring_norm)
  then have b52: "b \<le> 52" by simp
  have e: "double_exponent (real n) = int b"
    using n by (simp add: double_exponent_def Let_def bl)
  have p: "pow2 (int b - 52) = 1 / 2 ^ (52 - b)"
    using b52 by (auto simp: pow2_def nat_diff_distrib' intro!: arg_cong [where f = "\<lambda>k. 2 ^ k"])
  have "real n / pow2 (int b - 52) = of_int (int n * 2 ^ (52 - b))"
    by (simp add: p)
  from round_to_double_exact [OF e this] show ?thesis .
qed

lemma round_to_double_numeral [simp]:
  "(numeral w :: nat) < 2 ^ 53 \<Longrightarrow> round_to_double (numeral w) = numeral w"
  using round_to_double_of_nat [of "numeral w"] by simp

lemma round_to_double_0 [simp]: "round_to_double 0 = 0"
  by (simp add: round_to_double_def)

lemma round_to_double_1 [simp]: "round_to_double 1 = 1"
  using round_to_double_of_nat [of 1] by simp

lemma round_0_3: "round_to_double 0.3 = 5404319552844595 / 2 ^ 54"
proof -
  have e: "double_exponent 0.3 = - 2"
    unfolding double_exponent_def Let_def by (simp add: bit_length.simps pow2_def)
  have "round_half_even (0.3 / pow2 (- 2 - 52)) = 5404319552844595"
    unfolding round_half_even_def Let_def by (simp add: pow2_def)
  from round_to_double_eval [OF _ e this] show ?thesis
    by (simp add: pow2_def)
qed

lemma round_0_2: "round_to_double 0.2 = 7205759403792794 / 2 ^ 55"
proof -
  have e: "double_exponent 0.2 = - 3"
    unfolding double_exponent_def Let_def by (simp add: bit_length.simps pow2_def)
  have "round_half_even (0.2 / pow2 (- 3 - 52)) = 7205759403792794"
    unfolding round_half_even_def Let_def by (simp add: pow2_def)
  from round_to_double_eval [OF _ e this] show ?thesis
    by (simp add: pow2_def)
qed

text \<open>\<^verbatim>\<open>1.0 - 0.3\<close>, \<^verbatim>\<open>1.0 - 0.3 - 0.3\<close> and \<^verbatim>\<open>1.0 - 0.3 - 0.2\<close> as the platform computes them.\<close>

lemma sub_1_0_3: "double_sub 1 (round_to_double 0.3) = 6305039478318694 / 2 ^ 53"
proof -
  have e: "double_exponent (1 - 5404319552844595 / 2 ^ 54) = - 1"
    unfolding double_exponent_def Let_def by (simp add: bit_length.simps pow2_def)
  have "round_half_even ((1 - 5404319552844595 / 2 ^ 54) / pow2 (- 1 - 52))
        = 6305039478318694"
    unfolding round_half_even_def Let_def by (simp add: pow2_def)
  from round_to_double_eval [OF _ e this] show ?thesis
    by (simp add: double_sub_def round_0_3 pow2_def)
qed

lemma sub_1_0_3_0_3_exact:
  "round_to_double (7205759403792793 / 18014398509481984) = 7205759403792793 / 18014398509481984"
proof -
  have e: "double_exponent (7205759403792793 / 18014398509481984) = - 2"
    unfolding double_exponent_def Let_def by (simp add: bit_length.simps pow2_def)
  have k: "7205759403792793 / 18014398509481984 / pow2 (- 2 - 52) = of_int 7205759403792793"
    by (simp add: pow2_def)
  show ?thesis by (rule round_to_double_exact [OF e k])
qed

lemma sub_1_0_3_0_3:
  "double_sub (double_sub 1 (round_to_double 0.3)) (round_to_double 0.3)
   = 7205759403792793 / 2 ^ 54"
proof -
  have "double_sub (double_sub 1 (round_to_double 0.3)) (round_to_double 0.3)
        = round_to_double (double_sub 1 (round_to_double 0.3) - round_to_double 0.3)"
    by (simp only: double_sub_def [of "double_sub 1 (round_to_double 0.3)"])
  also have "\<dots> = round_to_double (6305039478318694 / 2 ^ 53 - 5404319552844595 / 2 ^ 54)"
    by (simp only: sub_1_0_3) (simp only: round_0_3)
  also have "\<dots> = round_to_double (7205759403792793 / 18014398509481984)"
    by simp
  also have "\<dots> = 7205759403792793 / 18014398509481984"
    by (rule sub_1_0_3_0_3_exact)
  also have "\<dots> = 7205759403792793 / 2 ^ 54"
    by simp
  finally show ?thesis .
qed

lemma sub_1_0_3_0_2_exact:
  "round_to_double (9007199254740991 / 18014398509481984) = 9007199254740991 / 18014398509481984"
proof -
  have e: "double_exponent (9007199254740991 / 18014398509481984) = - 2"
    unfolding double_exponent_def Let_def by (simp add: bit_length.simps pow2_def)
  have k: "9007199254740991 / 18014398509481984 / pow2 (- 2 - 52) = of_int 9007199254740991"
    by (simp add: pow2_def)
  show ?thesis by (rule round_to_double_exact [OF e k])
qed

lemma sub_1_0_3_0_2:
  "double_sub (double_sub 1 (round_to_double 0.3)) (round_to_double 0.2)
   = 9007199254740991 / 2 ^ 54"
proof -
  have "double_sub (double_sub 1 (round_to_double 0.3)) (round_to_double 0.2)
        = round_to_double (double_sub 1 (round_to_double 0.3) - round_to_double 0.2)"
    by (simp only: double_sub_def [of "double_sub 1 (round_to_double 0.3)"])
  also have "\<dots> = round_to_double (6305039478318694 / 2 ^ 53 - 7205759403792794 / 2 ^ 55)"
    by (simp only: sub_1_0_3) (simp only: round_0_2)
  also have "\<dots> = round_to_double (9007199254740991 / 18014398509481984)"
    by simp
  also have "\<dots> = 9007199254740991 / 18014398509481984"
    by (rule sub_1_0_3_0_2_exact)
  also have "\<dots> = 9007199254740991 / 2 ^ 54"
    by simp
  finally show ?thesis .
qed

text \<open>
  \<^verbatim>\<open>Math.floor(0.29 * 100)\<close> is 28 and \<^verbatim>\<open>Math.floor(0.3 * 100)\<close> is 30 on the platform: the
  product of the double nearest to 0.29 and 100 rounds to 28.999999999999996, that of the
  double nearest to 0.3 (which is below 0.3) rounds up to 30.
\<close>

lemma round_0_29: "round_to_double 0.29 = 5224175567749775 / 2 ^ 54"
proof -
  have e: "double_exponent 0.29 = - 2"
    unfolding double_exponent_def Let_def by (simp add: bit_length.simps pow2_def)
  have "round_half_even (0.29 / pow2 (- 2 - 52)) = 5224175567749775"
    unfolding round_half_even_def Let_def by (simp add: pow2_def)
  from round_to_double_eval [OF _ e this] show ?thesis
    by (simp add: pow2_def)
qed

lemma floor_mul_0_29: "\<lfloor>double_mul (round_to_double 0.29) 100\<rfloor> = 28"
proof -
  have e: "double_exponent (5224175567749775 / 2 ^ 54 * 100) = 4"
    unfolding double_exponent_def Let_def by (simp add: bit_length.simps pow2_def)
  have k: "round_half_even (5224175567749775 / 2 ^ 54 * 100 / pow2 (4 - 52))
           = 8162774324609023"
    unfolding round_half_even_def Let_def by (simp add: pow2_def)
  have "double_mul (round_to_double 0.29) 100
        = round_to_double (5224175567749775 / 2 ^ 54 * 100)"
    by (simp only: double_mul_def round_0_29)
  also have "\<dots> = 8162774324609023 / 2 ^ 48"
    using round_to_double_eval [OF _ e k] by (simp add: pow2_def)
  finally have v: "double_mul (round_to_double 0.29) 100 = 8162774324609023 / 2 ^ 48" .
  show ?thesis unfolding v by simp
qed

lemma floor_mul_0_3: "\<lfloor>double_mul (round_to_double 0.3) 100\<rfloor> = 30"
proof -
  have e: "double_exponent (5404319552844595 / 2 ^ 54 * 100) = 4"
    unfolding double_exponent_def Let_def by (simp add: bit_length.simps pow2_def)
  have k: "round_half_even (5404319552844595 / 2 ^ 54 * 100 / pow2 (4 - 52))
           = 8444249301319680"
    unfolding round_half_even_def Let_def by (simp add: pow2_def)
  from round_to_double_eval [OF _ e k]
  have "double_mul (round_to_double 0.3) 100 = 8444249301319680 / 2 ^ 48"
    by (simp add: double_mul_def round_0_3 pow2_def)
  then show ?thesis by simp
qed

lemma lit_sub_1_0_3: "double_sub 1 lit_0_3 = 6305039478318694 / 2 ^ 53"
  unfolding lit_0_3_def by (rule sub_1_0_3)

lemma lit_sub_1_0_3_0_3: "double_sub (double_sub 1 lit_0_3) lit_0_3 = 7205759403792793 / 2 ^ 54"
  unfolding lit_0_3_def by (rule sub_1_0_3_0_3)

lemma lit_sub_1_0_3_0_2: "double_sub (double_sub 1 lit_0_3) lit_0_2 = 9007199254740991 / 2 ^ 54"
  unfolding lit_0_3_def lit_0_2_def by (rule sub_1_0_3_0_2)


section \<open>Properties of base58Encode\<close>

lemma bytes_to_num_zeros: "bytes_to_num 0 (replicate n 0) = 0"
  by (induction n) simp_all

lemma to_base58_zero: "to_base58 0 result = result"
  by (simp add: to_base58.simps)

lemma leading_ones_zeros:
  "leading_ones (replicate n 0) result = replicate n (CHR ''1'') @ result"
proof (induction n arbitrary: result)
  case 0
  show ?case by simp
next
  case (Suc n)
  show ?case by (simp add: Suc.IH replicate_app_Cons_same)
qed

lemma base58Encode_zeros:
  "base58Encode (replicate n 0) = (if n = 0 then ''1'' else replicate n (CHR ''1''))"
  by (simp add: base58Encode_def bytes_to_num_zeros to_base58_zero leading_ones_zeros)

text \<open>
  C4 (as the claim states it, refuted): the claim says that the 32-byte all-zero key
  encodes to the one-character string "1". The code prepends one '1' per leading zero byte,
  so the result has 32 characters.
\<close>

theorem C4_all_zero_key_not_single_one:
  "base58Encode (replicate 32 0) \<noteq> ''1''"
proof -
  have "length (base58Encode (replicate 32 0)) = 32"
    by (simp add: base58Encode_zeros)
  then show ?thesis by auto
qed

text \<open>
  C4 (amended): base58Encode applied to the 32-byte all-zero public key returns the string
  of thirty-two '1' characters, one for every zero byte.
\<close>

theorem C4_all_zero_key:
  "base58Encode (replicate 32 0) = replicate 32 (CHR ''1'')"
  using base58Encode_zeros [of 32] by simp


subsection \<open>Evaluating base58Encode through its digits\<close>

definition from_base58_digits :: "nat list \<Rightarrow> nat" where
  "from_base58_digits ds = foldl (\<lambda>n d. n * 58 + d) 0 ds"

lemma to_base58_digit:
  "d < 58 \<Longrightarrow> 0 < q * 58 + d \<Longrightarrow> to_base58 (q * 58 + d) acc = to_base58 q ((ALPHABET ! d) # acc)"
  by (subst to_base58.simps) (simp add: BASE_def)

lemma foldl_digits_ge: "(n::nat) \<le> foldl (\<lambda>n d. n * 58 + d) n ds"
proof (induction ds arbitrary: n)
  case Nil
  show ?case by simp
next
  case (Cons d ds)
  have "n \<le> n * 58 + d" by simp
  also have "\<dots> \<le> foldl (\<lambda>n d. n * 58 + d) (n * 58 + d) ds" by (rule Cons.IH)
  finally show ?case by simp
qed

lemma from_base58_digits_pos: "ds \<noteq> [] \<Longrightarrow> 0 < hd ds \<Longrightarrow> 0 < from_base58_digits ds"
proof (cases ds)
  case Nil
  assume "ds \<noteq> []"
  with Nil show ?thesis by simp
next
  case (Cons d ds')
  assume "0 < hd ds"
  then have "0 < d" using Cons by simp
  moreover have "d \<le> foldl (\<lambda>n d. n * 58 + d) d ds'" by (rule foldl_digits_ge)
  ultimately show ?thesis by (simp add: from_base58_digits_def Cons)
qed

lemma to_base58_digits:
  "list_all (\<lambda>d. d < 58) ds \<Longrightarrow> (ds \<noteq> [] \<Longrightarrow> 0 < hd ds) \<Longrightarrow>
   to_base58 (from_base58_digits ds) acc = map (\<lambda>d. ALPHABET ! d) ds @ acc"
proof (induction ds arbitrary: acc rule: rev_induct)
  case Nil
  show ?case by (simp add: from_base58_digits_def to_base58_zero)
next
  case (snoc d ds)
  have d: "d < 58" and ds: "list_all (\<lambda>d. d < 58) ds"
    using snoc.prems(1) by simp_all
  have hd: "ds \<noteq> [] \<Longrightarrow> 0 < hd ds"
    using snoc.prems(2) by simp
  have pos: "0 < from_base58_digits ds * 58 + d"
  proof (cases "ds = []")
    case True
    then show ?thesis using snoc.prems(2) by simp
  next
    case False
    then show ?thesis using from_base58_digits_pos [OF False] hd by simp
  qed
  have "to_base58 (from_base58_digits (ds @ [d])) acc
        = to_base58 (from_base58_digits ds * 58 + d) acc"
    by (simp add: from_base58_digits_def)
  also have "\<dots> = to_base58 (from_base58_digits ds) ((ALPHABET ! d) # acc)"
    by (rule to_base58_digit [OF d pos])
  also have "\<dots> = map (\<lambda>d. ALPHABET ! d) ds @ ((ALPHABET ! d) # acc)"
    by (rule snoc.IH [OF ds hd])
  finally show ?case by simp
qed

lemma base58Encode_by_digits:
  assumes "bytes_to_num 0 bytes = from_base58_digits ds"
    and "list_all (\<lambda>d. d < 58) ds" and "ds \<noteq> []" and "0 < hd ds"
  shows "base58Encode bytes = leading_ones bytes (map (\<lambda>d. ALPHABET ! d) ds)"
proof -
  have "to_base58 (bytes_to_num 0 bytes) [] = map (\<lambda>d. ALPHABET ! d) ds"
    using to_base58_digits [OF assms(2), of "[]"] assms(1,4) by simp
  moreover have "leading_ones bs r \<noteq> []" if "r \<noteq> []" for bs :: "byte list" and r
    using that by (induction bs arbitrary: r) auto
  ultimately show ?thesis
    using assms(3) by (simp add: base58Encode_def)
qed

lemma base58Encode_token_program: "base58Encode spl_token_program_key = SPL_TOKEN_PROGRAM"
  by (subst base58Encode_by_digits [where ds =
        "[26, 46, 43, 37, 45, 43, 37, 39, 23, 38, 37, 32, 56, 41, 21, 54, 9, 17, 34, 21,
         34, 15, 18, 22, 14, 30, 11, 29, 52, 10, 53, 38, 8, 25, 50, 5, 1, 2, 28, 23, 4,
         12, 9]"])
     (simp_all add: spl_token_program_key_def from_base58_digits_def ALPHABET_def
        SPL_TOKEN_PROGRAM_def)

lemma base58Encode_authority:
  "base58Encode demo_authority_key = ''4rphRDDN37NeaVEvqmtHxwvY3jrw6Fb5RbKGB6YRHgJB''"
  by (subst base58Encode_by_digits [where ds =
        "[3, 49, 47, 40, 24, 12, 12, 21, 2, 6, 21, 37, 33, 28, 13, 53, 48, 44, 51, 16,
         55, 54, 53, 31, 2, 42, 49, 54, 5, 14, 34, 4, 24, 34, 18, 15, 10, 5, 31, 24, 16,
         39, 17, 10]"])
     (simp_all add: demo_authority_key_def from_base58_digits_def ALPHABET_def)

lemma base58Encode_fee_payer:
  "base58Encode demo_fee_payer_key = ''kDVTwmUSuE1TtywrFnmjoJLaYHW77zT7CEuopwpTN7M''"
  by (subst base58Encode_by_digits [where ds =
        "[43, 12, 28, 26, 54, 44, 27, 25, 52, 13, 0, 26, 51, 56, 54, 49, 14, 45, 44, 42,
         46, 17, 19, 33, 31, 16, 29, 6, 6, 57, 26, 6, 11, 13, 52, 46, 47, 54, 47, 26,
         21, 6, 20]"])
     (simp_all add: demo_fee_payer_key_def from_base58_digits_def ALPHABET_def)

lemma base58Encode_memo_program:
  "base58Encode memo_program_key = ''MemoSq4gqABAXKb96qnH8TysNcWxMyWCqXgDLGmfcHr''"
  by (subst base58Encode_by_digits [where ds =
        "[20, 37, 44, 46, 25, 48, 3, 39, 48, 9, 10, 9, 30, 18, 34, 8, 5, 48, 45, 16, 7,
         26, 56, 50, 21, 35, 29, 55, 20, 56, 29, 11, 48, 30, 39, 12, 19, 15, 44, 38, 35,
         16, 49]"])
     (simp_all add: memo_program_key_def from_base58_digits_def ALPHABET_def)

section \<open>Properties of the Solana walk\<close>

lemma unat_count_byte: "n < 256 \<Longrightarrow> unat (count_byte n) = n"
  by (simp add: count_byte_def unat_of_nat)

lemma rd_append: "rd (pre @ b # post) (Some (length pre)) = Some (unat b)"
  by (simp add: rd_def)

lemma rd_append': "n = length pre \<Longrightarrow> rd (pre @ b # post) (Some n) = Some (unat b)"
  by (simp add: rd_def)

lemma read_account_keys_append:
  "list_all (\<lambda>k. length k = 32) keys \<Longrightarrow>
   read_account_keys (pre @ concat keys @ post) (length keys) (Some (length pre)) acc
     = (acc @ keys, Some (length pre + 32 * length keys))"
proof (induction keys arbitrary: pre acc)
  case Nil
  show ?case by simp
next
  case (Cons k keys)
  have k: "length k = 32" and ks: "list_all (\<lambda>k. length k = 32) keys"
    using Cons.prems by simp_all
  have "read_account_keys ((pre @ k) @ concat keys @ post) (length keys)
          (Some (length (pre @ k))) (acc @ [k])
        = ((acc @ [k]) @ keys, Some (length (pre @ k) + 32 * length keys))"
    by (rule Cons.IH [OF ks])
  then show ?case
    by (simp add: js_plus_def slice32_def k)
qed

lemma read_ix_accounts_append:
  "read_ix_accounts (pre @ accs @ post) (length accs) (Some (length pre)) acc
     = (acc @ map (\<lambda>a. Some (unat a)) accs, Some (length pre + length accs))"
proof (induction accs arbitrary: pre acc)
  case Nil
  show ?case by simp
next
  case (Cons a accs)
  have "read_ix_accounts ((pre @ [a]) @ accs @ post) (length accs)
          (Some (length (pre @ [a]))) (acc @ [Some (unat a)])
        = ((acc @ [Some (unat a)]) @ map (\<lambda>a. Some (unat a)) accs,
           Some (length (pre @ [a]) + length accs))"
    by (rule Cons.IH)
  then show ?case
    by (simp add: js_plus_def rd_def)
qed


lemma base58Encode_at_in_range:
  "k < length keys \<Longrightarrow> base58Encode_at keys (Some k) = Inr (base58Encode (keys ! k))"
  by (simp add: base58Encode_at_def at_index_def)

lemma at_index_opt_map:
  "k < length accs \<Longrightarrow> at_index_opt (map (\<lambda>a. Some (unat a)) accs) k = Some (unat (accs ! k))"
  by (simp add: at_index_opt_def at_index_def)

lemma high_bit_set_iff: "n < 256 \<Longrightarrow> high_bit_set (Some n) = (128 \<le> n)"
proof -
  assume n: "n < 256"
  have "(n AND 2 ^ 7 = 0) = (\<not> bit n 7)"
    by (rule and_exp_eq_0_iff_not_bit)
  moreover have "bit n 7 = (128 \<le> n)"
  proof -
    have "n div 128 < 2" using n by simp
    then have "odd (n div 128) = (n div 128 = 1)" by (cases "n div 128") auto
    moreover have "(n div 128 = 1) = (128 \<le> n)" using n by auto
    ultimately show ?thesis by (simp add: bit_iff_odd)
  qed
  ultimately show ?thesis by (simp add: high_bit_set_def)
qed

lemma scan_step:
  assumes pid: "unat (ix_programIdIndex ix) < length keys"
    and la: "length (ix_accountIndices ix) < 256"
    and inr: "list_all (\<lambda>a. unat a < length keys) (ix_accountIndices ix)"
    and ld: "length (ix_data ix) < 256"
  shows "scan_instructions (pre @ one_byte_instruction ix @ post) keys (Suc n) (Some (length pre))
         = (if is_token_transfer keys ix then Inr (Some (base58Encode (authority_key keys ix)))
            else scan_instructions (pre @ one_byte_instruction ix @ post) keys n
                   (Some (length pre + length (one_byte_instruction ix))))"
proof -
  define pid where "pid = ix_programIdIndex ix"
  define accs where "accs = ix_accountIndices ix"
  define dat where "dat = ix_data ix"
  define c1 where "c1 = count_byte (length accs)"
  define c2 where "c2 = count_byte (length dat)"
  define T where "T = pre @ one_byte_instruction ix @ post"
  have pid: "unat pid < length keys" and la: "length accs < 256" and ld: "length dat < 256"
    and inr: "list_all (\<lambda>a. unat a < length keys) accs"
    using pid la inr ld by (simp_all add: pid_def accs_def dat_def)
  have T1: "T = pre @ pid # (c1 # accs @ c2 # dat @ post)"
    by (simp add: T_def one_byte_instruction_def pid_def accs_def dat_def c1_def c2_def)
  have r1: "rd T (Some (length pre)) = Some (unat pid)"
    unfolding T1 by (rule rd_append)
  have r2: "rd T (Some (Suc (length pre))) = Some (length accs)"
    using rd_append' [of "Suc (length pre)" "pre @ [pid]" c1 "accs @ c2 # dat @ post"] la
    by (simp add: T1 c1_def unat_count_byte)
  have ria: "read_ix_accounts T (length accs) (Some (Suc (Suc (length pre)))) []
             = (map (\<lambda>a. Some (unat a)) accs, Some (Suc (Suc (length pre + length accs))))"
    using read_ix_accounts_append [of "pre @ [pid, c1]" accs "c2 # dat @ post" "[]"]
    by (simp add: T1)
  have r3: "rd T (Some (Suc (Suc (length pre + length accs)))) = Some (length dat)"
    using rd_append' [of "Suc (Suc (length pre + length accs))" "pre @ pid # c1 # accs" c2
            "dat @ post"] ld
    by (simp add: T1 c2_def unat_count_byte)
  have len: "length (one_byte_instruction ix) = Suc (Suc (Suc (length accs + length dat)))"
    by (simp add: one_byte_instruction_def accs_def dat_def)
  have a3: "4 \<le> length accs \<Longrightarrow> unat (accs ! 3) < length keys"
    using inr by (simp add: list_all_length)
  have a2: "3 \<le> length accs \<Longrightarrow> unat (accs ! 2) < length keys"
    using inr by (simp add: list_all_length)
  show ?thesis
    unfolding T_def [symmetric]
    using pid a3 a2
    by (simp add: Let_def js_plus_def r1 r2 ria r3 loop_count_def len
          base58Encode_at_in_range at_index_opt_map is_token_transfer_def is_token_program_def
          authority_key_def add.assoc
          pid_def [symmetric] accs_def [symmetric] dat_def [symmetric])
qed

text \<open>An instruction whose program-id byte points outside the account table throws.\<close>

lemma scan_program_outside_table:
  assumes "rd txBytes offset = Some p" and "length keys \<le> p"
  shows "scan_instructions txBytes keys (Suc n) offset = Inl (Thrown ''bytes is not iterable'')"
  using assms
  by (simp add: Let_def base58Encode_at_def at_index_def split: prod.split)

lemma compact_u16_short: "n < 128 \<Longrightarrow> compact_u16 n = [count_byte n]"
  by (simp add: compact_u16_def)

lemma serialize_short_instruction:
  "short_instruction ix \<Longrightarrow> serialize_instruction ix = one_byte_instruction ix"
  by (simp add: short_instruction_def serialize_instruction_def one_byte_instruction_def
        compact_u16_short)

lemma scan_instructions_serialized:
  "list_all (wf_instruction (length keys)) ixs \<Longrightarrow> list_all short_instruction ixs \<Longrightarrow>
   scan_instructions (pre @ concat (map serialize_instruction ixs) @ post) keys (length ixs)
       (Some (length pre))
     = Inr (map_option (\<lambda>ix. base58Encode (authority_key keys ix))
              (find (is_token_transfer keys) ixs))"
proof (induction ixs arbitrary: pre)
  case Nil
  show ?case by simp
next
  case (Cons ix ixs)
  have wf: "wf_instruction (length keys) ix"
    and wfs: "list_all (wf_instruction (length keys)) ixs"
    and sh: "short_instruction ix" and shs: "list_all short_instruction ixs"
    using Cons.prems by simp_all
  have ob: "serialize_instruction ix = one_byte_instruction ix"
    by (rule serialize_short_instruction [OF sh])
  have step: "scan_instructions
                 (pre @ one_byte_instruction ix @ (concat (map serialize_instruction ixs) @ post))
                 keys (Suc (length ixs)) (Some (length pre))
              = (if is_token_transfer keys ix
                 then Inr (Some (base58Encode (authority_key keys ix)))
                 else scan_instructions
                        (pre @ one_byte_instruction ix @ (concat (map serialize_instruction ixs) @ post))
                        keys (length ixs) (Some (length pre + length (one_byte_instruction ix))))"
    using wf sh by (intro scan_step) (simp_all add: wf_instruction_def short_instruction_def)
  have ih: "scan_instructions
               ((pre @ one_byte_instruction ix) @ concat (map serialize_instruction ixs) @ post)
               keys (length ixs) (Some (length (pre @ one_byte_instruction ix)))
            = Inr (map_option (\<lambda>ix. base58Encode (authority_key keys ix))
                     (find (is_token_transfer keys) ixs))"
    by (rule Cons.IH [OF wfs shs])
  show ?case
    using step ih by (simp add: ob)
qed


lemma length_concat_const:
  "list_all (\<lambda>s. length s = n) xs \<Longrightarrow> length (concat xs) = n * length xs"
  by (induction xs) simp_all

text \<open>
  The walk over the bytes before the instructions, every count in one byte: it arrives at
  the first instruction with the account table read and the instruction count as its trip
  count.
\<close>

lemma solana_walk_layout:
  assumes sigs: "length sigs < 256" "list_all (\<lambda>s. length s = 64) sigs"
    and ver: "(V = [] \<and> unat h1 < 128) \<or> (\<exists>v. V = [v] \<and> 128 \<le> unat v)"
    and keys: "0 < length keys" "length keys < 256" "list_all (\<lambda>k. length k = 32) keys"
    and bh: "length bh = 32"
    and n: "n < 256"
    and P7: "P7 = (count_byte (length sigs) # concat sigs) @ V @ [h1, h2, h3]
                   @ (count_byte (length keys) # concat keys) @ bh @ [count_byte n]"
  shows "solana_walk (P7 @ body)
         = (case scan_instructions (P7 @ body) keys n (Some (length P7)) of
              Inl e \<Rightarrow> Inl e
            | Inr (Some addr) \<Rightarrow> Inr (Some addr)
            | Inr None \<Rightarrow> Inr (Some (base58Encode (keys ! 0))))"
proof -
  define P1 where "P1 = count_byte (length sigs) # concat sigs"
  define P3 where "P3 = P1 @ V @ [h1, h2, h3]"
  define P4 where "P4 = P3 @ [count_byte (length keys)]"
  define P6 where "P6 = P4 @ concat keys @ bh"
  define T where "T = P7 @ body"
  have P7_eq: "P7 = P6 @ [count_byte n]"
    by (simp add: P7 P6_def P4_def P3_def P1_def)
  have lP1: "length P1 = Suc (64 * length sigs)"
    using sigs(2) by (simp add: P1_def length_concat_const)
  have lP3: "length P3 = length P1 + length V + 3"
    by (simp add: P3_def)
  have lP4: "length P4 = Suc (length P3)"
    by (simp add: P4_def)
  have lP6: "length P6 = length P4 + 32 * length keys + 32"
    using keys(3) bh by (simp add: P6_def length_concat_const)
  have lP7: "length P7 = Suc (length P6)"
    by (simp add: P7_eq)
  have r0: "rd T (Some 0) = Some (length sigs)"
    using sigs(1) by (simp add: T_def P7_eq P6_def P4_def P3_def P1_def rd_def unat_count_byte)
  have off2: "(if high_bit_set (rd T (Some (length P1))) then js_plus (Some (length P1)) (Some 1)
               else Some (length P1)) = Some (length P1 + length V)"
  proof -
    from ver show ?thesis
    proof
      assume v: "V = [] \<and> unat h1 < 128"
      have "rd T (Some (length P1)) = Some (unat h1)"
        using rd_append' [of "length P1" P1 h1] v
        by (simp add: T_def P7_eq P6_def P4_def P3_def)
      then show ?thesis using v by (simp add: high_bit_set_iff)
    next
      assume "\<exists>v. V = [v] \<and> 128 \<le> unat v"
      then obtain v where v: "V = [v]" "128 \<le> unat v" by blast
      have "rd T (Some (length P1)) = Some (unat v)"
        using rd_append' [of "length P1" P1 v] v
        by (simp add: T_def P7_eq P6_def P4_def P3_def)
      moreover have "unat v < 256"
        using unsigned_less [of v, where ?'a = nat] by simp
      ultimately show ?thesis using v by (simp add: high_bit_set_iff js_plus_def)
    qed
  qed
  have r3: "rd T (Some (length P3)) = Some (length keys)"
    using rd_append' [of "length P3" P3 "count_byte (length keys)"] keys(2)
    by (simp add: T_def P7_eq P6_def P4_def unat_count_byte)
  have rk: "read_account_keys T (length keys) (Some (length P4)) []
            = (keys, Some (length P4 + 32 * length keys))"
    using read_account_keys_append [OF keys(3), of P4 "bh @ [count_byte n] @ body" "[]"]
    by (simp add: T_def P7_eq P6_def)
  have r6: "rd T (Some (length P6)) = Some n"
    using rd_append' [of "length P6" P6 "count_byte n"] n
    by (simp add: T_def P7_eq unat_count_byte)
  have o1: "js_plus (Some 0) (js_plus (Some 1) (js_times (Some (length sigs)) (Some 64)))
            = Some (length P1)"
    by (simp add: js_plus_def js_times_def lP1)
  have o3: "js_plus (Some (length P1 + length V)) (Some 3) = Some (length P3)"
    by (simp add: js_plus_def lP3)
  have o4: "js_plus (Some (length P3)) (Some 1) = Some (length P4)"
    by (simp add: js_plus_def lP4)
  have o6: "js_plus (Some (length P4 + 32 * length keys)) (Some 32) = Some (length P6)"
    by (simp add: js_plus_def lP6)
  have o7: "js_plus (Some (length P6)) (Some 1) = Some (length P7)"
    by (simp add: js_plus_def lP7)
  have k0: "base58Encode_at keys (Some 0) = Inr (base58Encode (keys ! 0))"
    using keys(1) by (simp add: base58Encode_at_in_range)
  show ?thesis
    unfolding T_def [symmetric]
    unfolding solana_walk_def Let_def r0 o1 off2 o3 r3 o4 loop_count_def option.case rk
      prod.case o6 r6 o7 k0
    using keys(1) by (simp split: sum.split option.split)
qed

lemma solana_walk_header:
  assumes wf: "wf_transaction tx"
    and short: "length (tx_signatures tx) < 128" "length (tx_accountKeys tx) < 128"
      "length (tx_instructions tx) < 128"
  shows "solana_walk (serialize_header tx @ body)
         = (case scan_instructions (serialize_header tx @ body) (tx_accountKeys tx)
                   (length (tx_instructions tx)) (Some (length (serialize_header tx))) of
              Inl e \<Rightarrow> Inl e
            | Inr (Some addr) \<Rightarrow> Inr (Some addr)
            | Inr None \<Rightarrow> Inr (Some (base58Encode (tx_accountKeys tx ! 0))))"
proof -
  obtain h1 h2 h3 where h: "tx_header tx = (h1, h2, h3)"
    by (cases "tx_header tx") auto
  define V where "V = (case tx_version tx of None \<Rightarrow> [] | Some v \<Rightarrow> [v])"
  have ver: "(V = [] \<and> unat h1 < 128) \<or> (\<exists>v. V = [v] \<and> 128 \<le> unat v)"
    using wf h by (auto simp: wf_transaction_def V_def split: option.splits)
  have P7: "serialize_header tx
            = (count_byte (length (tx_signatures tx)) # concat (tx_signatures tx)) @ V
              @ [h1, h2, h3]
              @ (count_byte (length (tx_accountKeys tx)) # concat (tx_accountKeys tx))
              @ tx_recentBlockhash tx @ [count_byte (length (tx_instructions tx))]"
    using short by (simp add: serialize_header_def compact_u16_short h V_def)
  show ?thesis
    using wf short
    by (intro solana_walk_layout [OF _ _ ver _ _ _ _ _ P7])
       (simp_all add: wf_transaction_def)
qed

text \<open>
  On a transaction all of whose counts are below 128 the walk returns the base58 encoding
  of the account the specification names: the account at index 3 (at least 4 accounts
  listed) or at index 2 (3 listed) of the first instruction, in transaction order, whose
  program id resolves through the account table to one of the two SPL Token programs;
  account-table entry 0 when no instruction qualifies.
\<close>

lemma walk_returns_spec_payer:
  assumes "wf_transaction tx" and "short_transaction tx"
    and "from_base64 base64Transaction = Inr (serialize_transaction tx @ rest)"
  shows "extractSolanaFeePayer from_base64 base64Transaction
         = Some (base58Encode (spec_payer_key tx))"
proof -
  define IX where "IX = concat (map serialize_instruction (tx_instructions tx))"
  have short: "length (tx_signatures tx) < 128" "length (tx_accountKeys tx) < 128"
      "length (tx_instructions tx) < 128"
    and shs: "list_all short_instruction (tx_instructions tx)"
    using assms(2) by (simp_all add: short_transaction_def)
  have wfs: "list_all (wf_instruction (length (tx_accountKeys tx))) (tx_instructions tx)"
    using assms(1) by (simp add: wf_transaction_def)
  have T: "serialize_transaction tx @ rest = serialize_header tx @ (IX @ rest)"
    by (simp add: serialize_transaction_def IX_def)
  have sc: "scan_instructions (serialize_header tx @ IX @ rest) (tx_accountKeys tx)
              (length (tx_instructions tx)) (Some (length (serialize_header tx)))
            = Inr (map_option (\<lambda>ix. base58Encode (authority_key (tx_accountKeys tx) ix))
                     (find (is_token_transfer (tx_accountKeys tx)) (tx_instructions tx)))"
    unfolding IX_def by (rule scan_instructions_serialized [OF wfs shs])
  have walk: "solana_walk (serialize_transaction tx @ rest)
              = Inr (Some (case find (is_token_transfer (tx_accountKeys tx)) (tx_instructions tx) of
                             None \<Rightarrow> base58Encode (tx_accountKeys tx ! 0)
                           | Some ix \<Rightarrow> base58Encode (authority_key (tx_accountKeys tx) ix)))"
    unfolding T solana_walk_header [OF assms(1) short] sc
    by (simp split: option.split)
  show ?thesis
    by (simp add: extractSolanaFeePayer_def assms(3) walk spec_payer_key_def authority_key_def
          split: option.split)
qed

text \<open>
  The TransferChecked-shaped transaction of the specification's example (one signature, an
  unversioned header, four accounts, one instruction to the SPL Token program listing four
  accounts): the walk returns the account at instruction-index 3, not the fee payer.
\<close>

lemma walk_on_demo_transaction:
  "wf_transaction demo_transaction
   \<and> extractSolanaFeePayer (\<lambda>t. Inr (serialize_transaction demo_transaction @ [])) ()
       = Some ''4rphRDDN37NeaVEvqmtHxwvY3jrw6Fb5RbKGB6YRHgJB''
   \<and> base58Encode (tx_accountKeys demo_transaction ! 0)
       = ''kDVTwmUSuE1TtywrFnmjoJLaYHW77zT7CEuopwpTN7M''"
proof -
  have wf: "wf_transaction demo_transaction"
    by (simp add: wf_transaction_def demo_transaction_def wf_instruction_def
          demo_fee_payer_key_def demo_token_account_key_def demo_authority_key_def
          spl_token_program_key_def)
  have sh: "short_transaction demo_transaction"
    by (simp add: short_transaction_def short_instruction_def demo_transaction_def)
  have p: "base58Encode (spec_payer_key demo_transaction)
           = ''4rphRDDN37NeaVEvqmtHxwvY3jrw6Fb5RbKGB6YRHgJB''"
    by (simp add: spec_payer_key_def authority_key_def demo_transaction_def
          is_token_transfer_def is_token_program_def base58Encode_token_program
          base58Encode_authority)
  have f: "base58Encode (tx_accountKeys demo_transaction ! 0)
           = ''kDVTwmUSuE1TtywrFnmjoJLaYHW77zT7CEuopwpTN7M''"
    by (simp add: demo_transaction_def base58Encode_fee_payer)
  show ?thesis
    using walk_returns_spec_payer
            [OF wf sh, of "\<lambda>t. Inr (serialize_transaction demo_transaction @ [])" "()" "[]"]
    by (simp add: wf p f)
qed

lemma memo_not_token_program: "\<not> is_token_program memo_program_key"
  by (simp add: is_token_program_def base58Encode_memo_program SPL_TOKEN_PROGRAM_def
        SPL_TOKEN_2022_PROGRAM_def)

lemma memo_transaction_wf: "wf_transaction memo_transaction"
  by (simp add: wf_transaction_def memo_transaction_def wf_instruction_def
        memo_instruction_def transfer_instruction_def
        demo_fee_payer_key_def demo_token_account_key_def demo_authority_key_def
        spl_token_program_key_def memo_program_key_def)

lemma memo_transaction_spec_payer: "spec_payer_key memo_transaction = demo_authority_key"
  by (simp add: spec_payer_key_def authority_key_def memo_transaction_def
        memo_instruction_def transfer_instruction_def is_token_transfer_def
        memo_not_token_program is_token_program_def base58Encode_token_program)

text \<open>
  The memo's data count, 128, is the two bytes 0x80 0x01. The walk takes the first for the
  count and skips 128 bytes from the second on, so it takes the last byte of the memo, 65,
  for the program-id index of the next instruction; the account table has 5 entries,
  \<^verbatim>\<open>accountKeys[65]\<close> is \<^verbatim>\<open>undefined\<close> and \<^verbatim>\<open>base58Encode\<close> throws.
\<close>

lemma solana_walk_memo_transaction:
  "solana_walk (serialize_transaction memo_transaction) = Inl (Thrown ''bytes is not iterable'')"
proof -
  define keys where "keys = tx_accountKeys memo_transaction"
  define H where "H = serialize_header memo_transaction"
  define as_read :: instruction where
    "as_read = \<lparr> ix_programIdIndex = 4, ix_accountIndices = [], ix_data = 1 # replicate 127 65 \<rparr>"
  define post where "post = 65 # serialize_instruction transfer_instruction"
  have lk: "length keys = 5"
    by (simp add: keys_def memo_transaction_def)
  have k4: "keys ! 4 = memo_program_key"
    by (simp add: keys_def memo_transaction_def)
  have r: "replicate (Suc 127) (65::byte) = replicate 127 65 @ [65]"
    by (simp only: replicate_Suc replicate_append_same)
  have c: "compact_u16 128 = [128, 1]"
    by (simp add: compact_u16_def count_byte_def)
  have "serialize_instruction memo_instruction = [4, 0, 128, 1] @ replicate (Suc 127) 65"
    by (simp add: serialize_instruction_def memo_instruction_def c compact_u16_short
          count_byte_def)
  also have "\<dots> = one_byte_instruction as_read @ [65]"
    unfolding r by (simp add: one_byte_instruction_def as_read_def count_byte_def)
  finally have m: "serialize_instruction memo_instruction = one_byte_instruction as_read @ [65]" .
  have T: "serialize_transaction memo_transaction = H @ one_byte_instruction as_read @ post"
    by (simp add: serialize_transaction_def H_def post_def m memo_transaction_def)
  have nt: "\<not> is_token_transfer keys as_read"
    by (simp add: is_token_transfer_def as_read_def k4 memo_not_token_program)
  have s1: "scan_instructions (H @ one_byte_instruction as_read @ post) keys (Suc 1)
              (Some (length H))
            = scan_instructions (H @ one_byte_instruction as_read @ post) keys 1
                (Some (length H + length (one_byte_instruction as_read)))"
    using nt
    by (subst scan_step) (simp_all add: as_read_def lk)
  have rd65: "rd (H @ one_byte_instruction as_read @ post)
                (Some (length H + length (one_byte_instruction as_read))) = Some 65"
    using rd_append' [of "length H + length (one_byte_instruction as_read)"
            "H @ one_byte_instruction as_read" 65 "serialize_instruction transfer_instruction"]
    by (simp add: post_def)
  have s2: "scan_instructions (H @ one_byte_instruction as_read @ post) keys (Suc 0)
              (Some (length H + length (one_byte_instruction as_read)))
            = Inl (Thrown ''bytes is not iterable'')"
    by (rule scan_program_outside_table [OF rd65]) (simp add: lk)
  have n2: "length (tx_instructions memo_transaction) = Suc 1"
    by (simp add: memo_transaction_def)
  have short: "length (tx_signatures memo_transaction) < 128"
    "length (tx_accountKeys memo_transaction) < 128"
    "length (tx_instructions memo_transaction) < 128"
    by (simp_all add: memo_transaction_def)
  show ?thesis
    unfolding T H_def solana_walk_header [OF memo_transaction_wf short] n2
    unfolding H_def [symmetric] keys_def [symmetric]
    using s1 s2 by simp
qed

text \<open>
  C1, at a payment with a memo of 128 bytes in front of the token transfer: the
  transaction is well formed, its first instruction to an SPL Token program is the
  transfer, which lists four accounts, so the payer of the specification is the account at
  the transfer's index 3, the authority
  \<^verbatim>\<open>4rphRDDN37NeaVEvqmtHxwvY3jrw6Fb5RbKGB6YRHgJB\<close>. The decoder returns null: it reads one
  byte where the transaction has a compact-u16 count, loses its place in the instruction
  list and throws inside its \<^verbatim>\<open>try\<close>. It returns neither that account nor the fee payer.
\<close>

theorem C1_long_memo_hides_token_transfer:
  "wf_transaction memo_transaction
   \<and> find (is_token_transfer (tx_accountKeys memo_transaction))
        (tx_instructions memo_transaction) = Some transfer_instruction
   \<and> spec_payer_key memo_transaction = demo_authority_key
   \<and> base58Encode (spec_payer_key memo_transaction)
       = ''4rphRDDN37NeaVEvqmtHxwvY3jrw6Fb5RbKGB6YRHgJB''
   \<and> extractSolanaFeePayer (\<lambda>t. Inr (serialize_transaction memo_transaction)) () = None"
proof -
  have f: "find (is_token_transfer (tx_accountKeys memo_transaction))
             (tx_instructions memo_transaction) = Some transfer_instruction"
    by (simp add: memo_transaction_def memo_instruction_def transfer_instruction_def
          is_token_transfer_def memo_not_token_program is_token_program_def
          base58Encode_token_program)
  have w: "extractSolanaFeePayer (\<lambda>t. Inr (serialize_transaction memo_transaction)) () = None"
    by (simp add: extractSolanaFeePayer_def solana_walk_memo_transaction)
  show ?thesis
    using memo_transaction_wf f w
    by (simp add: memo_transaction_spec_payer base58Encode_authority)
qed


section \<open>Properties of decodePaymentHeader\<close>

text \<open>The decoder returns to its caller, a record or null, whatever the platform does.\<close>

lemma decodePaymentHeader_never_throws:
  "\<exists>r. decodePaymentHeader P paymentHeader = Inr r"
  by (simp add: decodePaymentHeader_def try_catch_def split: option.split sum.split)

lemma solana_walk_truncated: "solana_walk [0, 0, 0, 0, 1] = Inr (Some ''1'')"
  by (simp add: solana_walk_def rd_def js_plus_def js_times_def high_bit_set_def loop_count_def
        slice32_def base58Encode_at_def at_index_def base58Encode_def to_base58_zero Let_def)


lemma demo_texts_distinct:
  "demo_text_accepted \<noteq> demo_text_evm" "demo_text_accepted \<noteq> demo_text_truncated"
  "demo_text_evm \<noteq> demo_text_truncated"
  by (simp_all add: demo_text_accepted_def demo_text_evm_def demo_text_truncated_def)

lemma demo_headers_distinct:
  "demo_header_accepted \<noteq> demo_header_evm" "demo_header_accepted \<noteq> demo_header_truncated"
  "demo_header_evm \<noteq> demo_header_truncated"
  by (simp_all add: demo_header_accepted_def demo_header_evm_def demo_header_truncated_def)

lemma demo_headers_nonempty:
  "demo_header_accepted \<noteq> []" "demo_header_evm \<noteq> []" "demo_header_truncated \<noteq> []"
  by (simp_all add: demo_header_accepted_def demo_header_evm_def demo_header_truncated_def)

lemmas demo_eval =
  demo_platform_def decoded_text_def demo_texts_distinct demo_texts_distinct [symmetric]
  demo_headers_distinct demo_headers_distinct [symmetric] demo_headers_nonempty

text \<open>
  C9 (as the claim states it, refuted): the two copies do not return equal results for every
  header. On the header that decodes to an envelope with only \<^verbatim>\<open>accepted.amount\<close>, the copy in
  src/src/utils.ts returns a null amount and the other copy the accepted amount.
\<close>

theorem C9_copies_differ_on_accepted_amount:
  "decodePaymentHeader_src_utils demo_platform (Some demo_header_accepted)
   \<noteq> decodePaymentHeader demo_platform (Some demo_header_accepted)"
proof -
  have "decodePaymentHeader_src_utils demo_platform (Some demo_header_accepted)
        = Inr (Some \<lparr> payer = JNull, amount = JNull, network = JNull \<rparr>)"
    by (simp add: decodePaymentHeader_src_utils_def try_catch_def demo_eval
          decode_parsed_src_utils_def envelope_payer_def envelope_network_def js_or_def Let_def)
  moreover have "decodePaymentHeader demo_platform (Some demo_header_accepted)
        = Inr (Some \<lparr> payer = JNull, amount = JStr ''1000'', network = JNull \<rparr>)"
    by (simp add: decodePaymentHeader_def try_catch_def demo_eval
          decode_parsed_def envelope_payer_def envelope_network_def js_or_def Let_def)
  ultimately show ?thesis by simp
qed

text \<open>
  C9 (amended): the two copies return equal results for every header whose envelope has a
  truthy \<^verbatim>\<open>payload.authorization.value\<close> or no truthy \<^verbatim>\<open>accepted.amount\<close>, and whose payer
  is found in the envelope, or that has no truthy \<^verbatim>\<open>payload.transaction\<close>, or on whose
  transaction the two walks return the same address; also for every header that is null,
  empty or does not parse.
\<close>

theorem C9_copies_agree:
  assumes "copies_agree_on P paymentHeader"
  shows "decodePaymentHeader_src_utils P paymentHeader = decodePaymentHeader P paymentHeader"
proof (cases paymentHeader)
  case None
  then show ?thesis
    by (simp add: decodePaymentHeader_src_utils_def decodePaymentHeader_def)
next
  case (Some h)
  show ?thesis
  proof (cases "json_parse P (decoded_text P h)")
    case (Inl e)
    then show ?thesis
      using Some by (simp add: decodePaymentHeader_src_utils_def decodePaymentHeader_def)
  next
    case (Inr parsed)
    have a: "same_amount_source parsed" and p: "same_payer_source P parsed"
      using assms Some Inr by (simp_all add: copies_agree_on_def)
    have "decode_parsed_src_utils P parsed = decode_parsed P parsed"
      using a p
      by (auto simp: decode_parsed_src_utils_def decode_parsed_def same_amount_source_def
            same_payer_source_def js_or_def Let_def)
    then show ?thesis
      using Some Inr by (simp add: decodePaymentHeader_src_utils_def decodePaymentHeader_def)
  qed
qed

theorem C9_copies_agree_witness:
  "copies_agree_on demo_platform (Some demo_header_evm)
   \<and> decodePaymentHeader_src_utils demo_platform (Some demo_header_evm)
     = decodePaymentHeader demo_platform (Some demo_header_evm)
   \<and> decodePaymentHeader demo_platform (Some demo_header_evm)
     = Inr (Some \<lparr> payer = JStr ''0xabc'', amount = JStr ''1000'', network = JNull \<rparr>)"
proof -
  have h: "copies_agree_on demo_platform (Some demo_header_evm)"
    by (simp add: copies_agree_on_def demo_eval same_amount_source_def same_payer_source_def
          envelope_payer_def js_or_def)
  have v: "decodePaymentHeader demo_platform (Some demo_header_evm)
     = Inr (Some \<lparr> payer = JStr ''0xabc'', amount = JStr ''1000'', network = JNull \<rparr>)"
    by (simp add: decodePaymentHeader_def try_catch_def demo_eval
        decode_parsed_def envelope_payer_def envelope_network_def js_or_def Let_def)
  show ?thesis
    using C9_copies_agree [OF h] h v by simp
qed

text \<open>
  C8, the part about truncated transaction bytes, at the five bytes 00 00 00 00 01 (base64
  \<^verbatim>\<open>AAAAAAE=\<close>: no signature, a header, an account count of 1 and nothing after it). The
  claim says the walk yields null; the walk returns the address "1", the encoding of the
  empty slice it took for the first key, and the decoder reports it as a Solana payer. The
  copy in src/src/utils.ts checks that the key lies inside the buffer and returns null.
\<close>

theorem C8_truncated_transaction_yields_address:
  "extractSolanaFeePayer (base64_to_bytes demo_platform) (JStr ''AAAAAAE='') = Some ''1''
   \<and> extractSolanaFeePayer_src_utils (base64_to_bytes demo_platform) (JStr ''AAAAAAE='') = None
   \<and> decodePaymentHeader demo_platform (Some demo_header_truncated)
     = Inr (Some \<lparr> payer = JStr ''1'', amount = JNull, network = JStr SOLANA_MAINNET \<rparr>)"
proof -
  have w: "extractSolanaFeePayer (base64_to_bytes demo_platform) (JStr ''AAAAAAE='') = Some ''1''"
    by (simp add: extractSolanaFeePayer_def demo_platform_def solana_walk_truncated)
  have o: "extractSolanaFeePayer_src_utils (base64_to_bytes demo_platform) (JStr ''AAAAAAE='') = None"
    by (simp add: extractSolanaFeePayer_src_utils_def demo_platform_def rd_def js_plus_def
          js_times_def high_bit_set_def Let_def)
  have d: "decodePaymentHeader demo_platform (Some demo_header_truncated)
     = Inr (Some \<lparr> payer = JStr ''1'', amount = JNull, network = JStr SOLANA_MAINNET \<rparr>)"
    using w
    by (simp add: decodePaymentHeader_def try_catch_def demo_eval string_or_null_def
        decode_parsed_def envelope_payer_def envelope_network_def js_or_def Let_def)
  show ?thesis using w o d by simp
qed


section \<open>Properties of validateResponse\<close>

lemmas check_blocks =
  check_status_code_def check_not_empty_def check_no_error_fields_def
  check_required_fields_def check_empty_collections_def check_custom_validator_def

lemma validateResponse_throwing:
  "validateResponse demo_body 200 throwing_config
   = \<lparr> valid = True,
       checks = [\<lparr> name = ''status_code'', passed = True, message = ''Success status code'' \<rparr>,
                 \<lparr> name = ''not_empty'', passed = True, message = ''Response has content'' \<rparr>,
                 \<lparr> name = ''no_error_fields'', passed = True,
                    message = ''No error indicators found'' \<rparr>,
                 \<lparr> name = ''custom_validator'', passed = False,
                    message = ''Custom validator error: boom'' \<rparr>],
       meaningfulnessScore = 1, reason = None \<rparr>"
  by (simp add: validateResponse_def check_blocks demo_body_def throwing_config_def
        hasErrorIndicators_def clamp01_def Let_def)

text \<open>
  C5 (as the claim states it, refuted): the score is not 1.0 reduced by the penalty of every
  check recorded as failed. With status 200, a healthy body and a custom validator that
  throws, the failed \<^verbatim>\<open>custom_validator\<close> check is recorded and the score stays 1.
\<close>

theorem C5_throwing_validator_no_penalty:
  "meaningfulnessScore (validateResponse demo_body 200 throwing_config)
   \<noteq> claimed_score (checks (validateResponse demo_body 200 throwing_config))"
  by (simp add: validateResponse_throwing claimed_score_def apply_penalties_def penalise_def
        penalty_of_def clamp01_def lit_sub_1_0_3)

lemma apply_penalties_append:
  "apply_penalties score (xs @ ys) = apply_penalties (apply_penalties score xs) ys"
  by (simp add: apply_penalties_def)

lemma penalised_status: "penalised st (check_status_code statusCode ok st)"
  by (cases st)
     (simp add: penalised_def check_status_code_def apply_penalties_def penalise_def
        penalty_of_def)

lemma penalised_not_empty: "penalised st (check_not_empty isEmpty st)"
  by (cases st)
     (simp add: penalised_def check_not_empty_def apply_penalties_def penalise_def
        penalty_of_def)

lemma penalised_errors: "penalised st (check_no_error_fields hasErrors st)"
  by (cases st)
     (simp add: penalised_def check_no_error_fields_def apply_penalties_def penalise_def
        penalty_of_def)

lemma penalised_required: "penalised st (check_required_fields body config st)"
  by (cases st)
     (simp add: penalised_def check_required_fields_def apply_penalties_def penalise_def
        penalty_of_def Let_def split: option.split)

lemma penalised_collections: "penalised st (check_empty_collections body config st)"
  by (cases st)
     (simp add: penalised_def check_empty_collections_def apply_penalties_def penalise_def
        penalty_of_def Let_def)

lemma penalised_trans: "penalised a b \<Longrightarrow> penalised b c \<Longrightarrow> penalised a c"
  unfolding penalised_def
proof -
  assume "\<exists>new. fst b = fst a @ new \<and> snd b = apply_penalties (snd a) new"
    and "\<exists>new. fst c = fst b @ new \<and> snd c = apply_penalties (snd b) new"
  then obtain n1 n2 where 1: "fst b = fst a @ n1" "snd b = apply_penalties (snd a) n1"
    and 2: "fst c = fst b @ n2" "snd c = apply_penalties (snd b) n2"
    by blast
  have "fst c = fst a @ (n1 @ n2) \<and> snd c = apply_penalties (snd a) (n1 @ n2)"
    using 1 2 by (simp add: apply_penalties_append)
  then show "\<exists>new. fst c = fst a @ new \<and> snd c = apply_penalties (snd a) new"
    by blast
qed

lemma custom_block:
  "check_custom_validator body statusCode config st
   = (fst st @ custom_validator_checks body statusCode config,
      custom_validator_penalised body statusCode config (snd st))"
  by (cases st)
     (simp add: check_custom_validator_def custom_validator_checks_def
        custom_validator_penalised_def split: option.split sum.split js_error.split)

text \<open>
  C5 (amended): the checks are those validateResponse records itself followed by those of
  the custom validator. The score starts at 1.0; for each failed check validateResponse
  records itself, in the order of the checks, the fixed penalty of its category is
  subtracted (status 0.3, emptiness 0.4, error indicators 0.3, missing required fields 0.2,
  empty collections 0.1), every subtraction rounded to a double as the platform does; then
  0.3 is subtracted, rounded the same way, when the custom validator returns
  \<^verbatim>\<open>valid = false\<close>; the result is clamped to [0, 1]. A custom validator that throws adds a
  failed \<^verbatim>\<open>custom_validator\<close> check and no penalty; the checks a custom validator returns add
  none of their own.
\<close>

theorem C5_score_is_penalties:
  "checks (validateResponse body statusCode config)
     = own_checks body statusCode config @ custom_validator_checks body statusCode config
   \<and> meaningfulnessScore (validateResponse body statusCode config)
     = clamp01 (custom_validator_penalised body statusCode config
                 (apply_penalties 1.0 (own_checks body statusCode config)))"
proof -
  define ok where "ok = (statusCode \<ge> 200 \<and> statusCode < 300)"
  define isEmpty where
    "isEmpty = isEmptyResponse body (case minResponseSize config of None \<Rightarrow> 2 | Some m \<Rightarrow> m)"
  define st5 where
    "st5 = check_empty_collections body config
            (check_required_fields body config
              (check_no_error_fields (hasErrorIndicators body (errorFields config))
                (check_not_empty isEmpty (check_status_code statusCode ok ([], 1.0)))))"
  have "penalised ([], 1.0) st5"
    unfolding st5_def
    by (intro penalised_trans [OF _ penalised_collections] penalised_trans [OF _ penalised_required]
          penalised_trans [OF _ penalised_errors] penalised_trans [OF _ penalised_not_empty]
          penalised_status)
  then obtain new where new: "fst st5 = new" "snd st5 = apply_penalties 1.0 new"
    by (auto simp: penalised_def)
  have c: "checks (validateResponse body statusCode config)
           = new @ custom_validator_checks body statusCode config"
    and s: "meaningfulnessScore (validateResponse body statusCode config)
           = clamp01 (custom_validator_penalised body statusCode config
                       (apply_penalties 1.0 new))"
    using new
    by (simp_all add: validateResponse_def Let_def custom_block st5_def ok_def isEmpty_def)
  have "own_checks body statusCode config = new"
    by (simp add: own_checks_def c)
  then show ?thesis using c s by simp
qed

text \<open>
  The rounding is visible in the score. A body \<^verbatim>\<open>{error: 'x'}\<close> with status 500 fails the
  status check and the error check: the score is 1.0 - 0.3 - 0.3 as the platform computes
  it, 0.39999999999999997 and not 0.4. A body \<^verbatim>\<open>{error: 'x', a: '1'}\<close> with status 200 and
  the required field \<^verbatim>\<open>id\<close> scores 1.0 - 0.3 - 0.2, which is 0.49999999999999994: below
  0.5, so the response is not valid.
\<close>

lemma validateResponse_rounds_status_and_error:
  "meaningfulnessScore (validateResponse (JObj [(''error'', JStr ''x'')]) 500 plain_config)
   = 7205759403792793 / 2 ^ 54"
  by (simp add: validateResponse_def check_blocks plain_config_def hasErrorIndicators_def
        clamp01_def Let_def lit_sub_1_0_3_0_3)

lemma validateResponse_rounds_below_half:
  "meaningfulnessScore
     (validateResponse (JObj [(''error'', JStr ''x''), (''a'', JStr ''1'')]) 200
        (plain_config \<lparr> requiredFields := Some [''id''] \<rparr>))
   = 9007199254740991 / 2 ^ 54
   \<and> \<not> valid
     (validateResponse (JObj [(''error'', JStr ''x''), (''a'', JStr ''1'')]) 200
        (plain_config \<lparr> requiredFields := Some [''id''] \<rparr>))"
  by (simp add: validateResponse_def check_blocks plain_config_def hasErrorIndicators_def
        missing_fields_def field_missing_def OBJECT_PROTOTYPE_MEMBERS_def
        clamp01_def Let_def lit_sub_1_0_3_0_2)

text \<open>
  C6: \<^verbatim>\<open>valid\<close> is true exactly when the returned score is at least 0.5 and the status code is
  in [200, 300) and the body is not empty by isEmptyResponse with the configured minimum
  size (2 when none is configured).
\<close>

theorem C6_valid_rule:
  "valid (validateResponse body statusCode config)
   = (meaningfulnessScore (validateResponse body statusCode config) \<ge> 0.5
      \<and> 200 \<le> statusCode \<and> statusCode < 300
      \<and> \<not> isEmptyResponse body (case minResponseSize config of None \<Rightarrow> 2 | Some m \<Rightarrow> m))"
  by (simp add: validateResponse_def Let_def split: prod.split)


section \<open>Properties of the RefundExecutor\<close>

lemma log_line_fields [simp]:
  "todayRefundedCents (log_line st m) = todayRefundedCents st"
  "monthRefundedCents (log_line st m) = monthRefundedCents st"
  "processedRefundIds (log_line st m) = processedRefundIds st"
  "executions (log_line st m) = executions st"
  "sent (log_line st m) = sent st"
  "wsOpen (log_line st m) = wsOpen st"
  by (simp_all add: log_line_def)

lemma sendMessage_fields [simp]:
  "todayRefundedCents (sendMessage st m) = todayRefundedCents st"
  "monthRefundedCents (sendMessage st m) = monthRefundedCents st"
  "processedRefundIds (sendMessage st m) = processedRefundIds st"
  "executions (sendMessage st m) = executions st"
  "wsOpen (sendMessage st m) = wsOpen st"
  by (simp_all add: sendMessage_def)

lemma sendMessage_sent [simp]: "wsOpen st \<Longrightarrow> sent (sendMessage st m) = sent st @ [m]"
  by (simp add: sendMessage_def)

lemma catch_error_fields [simp]:
  "todayRefundedCents (catch_error config st r m) = todayRefundedCents st"
  "monthRefundedCents (catch_error config st r m) = monthRefundedCents st"
  "processedRefundIds (catch_error config st r m) = processedRefundIds st"
  "executions (catch_error config st r m) = executions st"
  by (simp_all add: catch_error_def Let_def)

lemma reset_caps_fields [simp]:
  "todayRefundedCents (reset_caps st t m)
     = (if t \<noteq> lastCapResetDate st then 0 else todayRefundedCents st)"
  "monthRefundedCents (reset_caps st t m)
     = (if m \<noteq> lastCapResetMonth st then 0 else monthRefundedCents st)"
  "processedRefundIds (reset_caps st t m) = processedRefundIds st"
  "executions (reset_caps st t m) = executions st"
  "sent (reset_caps st t m) = sent st"
  "wsOpen (reset_caps st t m) = wsOpen st"
  by (simp_all add: reset_caps_def Let_def)

lemma complete_refund_counters:
  "todayRefundedCents (complete_refund config st r result)
     = (case result of TxSuccess h a g \<Rightarrow> double_add (todayRefundedCents st) (amountCents r)
        | TxFailure e b \<Rightarrow> todayRefundedCents st)"
  "monthRefundedCents (complete_refund config st r result)
     = (case result of TxSuccess h a g \<Rightarrow> double_add (monthRefundedCents st) (amountCents r)
        | TxFailure e b \<Rightarrow> monthRefundedCents st)"
  "executions (complete_refund config st r result) = executions st"
  by (simp_all add: complete_refund_def Let_def split: tx_result.split)


text \<open>
  C7: when a reconnection is scheduled (the executor is not shutting down) with the attempt
  counter at n, the delay is 1000 * 2^n ms for n below 5, that is 1000, 2000, 4000, 8000,
  16000 ms, and 60000 ms from n = 5 on; the notice is logged only when n is 5 (and the
  executor logs at all); the counter goes up by one.
\<close>

theorem C7_reconnect_schedule:
  assumes "\<not> isShuttingDown st"
  shows "reconnectTimer (scheduleReconnect st)
           = Some (if reconnectAttempts st < 5 then 1000 * 2 ^ reconnectAttempts st else 60000)
       \<and> reconnectTimer (scheduleReconnect st)
           = Some (if reconnectAttempts st = 0 then 1000
                   else if reconnectAttempts st = 1 then 2000
                   else if reconnectAttempts st = 2 then 4000
                   else if reconnectAttempts st = 3 then 8000
                   else if reconnectAttempts st = 4 then 16000
                   else 60000)
       \<and> logged (scheduleReconnect st)
           = logged st @ (if reconnectAttempts st = 5 \<and> debug st
                          then [''Server unreachable, retrying every 60s''] else [])
       \<and> reconnectAttempts (scheduleReconnect st) = reconnectAttempts st + 1"
proof -
  have cases: "reconnectAttempts st < 5 \<Longrightarrow>
      reconnectAttempts st = 0 \<or> reconnectAttempts st = 1 \<or> reconnectAttempts st = 2
      \<or> reconnectAttempts st = 3 \<or> reconnectAttempts st = 4"
    by arith
  show ?thesis
  proof (cases "reconnectAttempts st < 5")
    case True
    with cases show ?thesis
      using assms
      by (auto simp: scheduleReconnect_def fastPhaseAttempts_def baseReconnectDelay_def)
  next
    case False
    then show ?thesis
      using assms
      by (simp add: scheduleReconnect_def fastPhaseAttempts_def persistentRetryDelay_def
            log_line_def)
  qed
qed

theorem C7_reconnect_schedule_witness:
  "\<not> isShuttingDown (demo_executor\<lparr> reconnectAttempts := 3 \<rparr>)
   \<and> reconnectTimer (scheduleReconnect (demo_executor\<lparr> reconnectAttempts := 3 \<rparr>)) = Some 8000
   \<and> \<not> isShuttingDown (demo_executor\<lparr> reconnectAttempts := 5, debug := True \<rparr>)
   \<and> reconnectTimer (scheduleReconnect (demo_executor\<lparr> reconnectAttempts := 5, debug := True \<rparr>))
       = Some 60000
   \<and> logged (scheduleReconnect (demo_executor\<lparr> reconnectAttempts := 5, debug := True \<rparr>))
       = [''Server unreachable, retrying every 60s'']"
proof -
  have a: "\<not> isShuttingDown (demo_executor\<lparr> reconnectAttempts := 3 \<rparr>)"
    and b: "\<not> isShuttingDown (demo_executor\<lparr> reconnectAttempts := 5, debug := True \<rparr>)"
    by (simp_all add: demo_executor_def new_RefundExecutor_def)
  show ?thesis
    using C7_reconnect_schedule [OF a] C7_reconnect_schedule [OF b] a b
    by (simp add: demo_executor_def new_RefundExecutor_def)
qed

subsection \<open>Spend caps\<close>

lemmas demo_refund_eval =
  demo_refund_platform_def demo_config_def demo_executor_def demo_refund_def
  new_RefundExecutor_def processSingleRefund_def begin_refund_def complete_refund_def
  executeRefundTx_def getEndpointConfig_def endpoint_disabled_def effective_max_def
  reset_caps_def cap_exceeded_def sendMessage_def log_line_def starts_with_def Let_def
  double_add_def double_mul_def











lemma demo_step_denied:
  "processSingleRefund demo_refund_platform demo_config demo_executor (demo_refund ''r1'' 100)
   = demo_executor\<lparr> sent := [RefundRejected ''r1'' ''EXCEEDED_CAP'' ''Daily refund cap exceeded''] \<rparr>"
  by (simp add: demo_refund_eval)


lemma processSingleRefund_denied:
  assumes "refund_id (refund inp) \<notin> processedRefundIds st"
    and "getEndpointConfig P config (url (refund inp)) = Inr endpointConfig"
    and "wsOpen st"
    and "checkCaps P config endpointConfig (reset_caps st (today_of inp) (month_of inp))
           (refund inp) = Some (why, note)"
  shows "sent (processSingleRefund P config st inp)
           = sent st @ [RefundRejected (refund_id (refund inp)) why note]"
    and "executions (processSingleRefund P config st inp) = executions st"
    and "processedRefundIds (processSingleRefund P config st inp) = processedRefundIds st"
  using assms
  by (auto simp: processSingleRefund_def begin_refund_def checkCaps_def Let_def today_of_def
        month_of_def split: if_splits)

lemma processSingleRefund_allowed:
  assumes "refund_id (refund inp) \<notin> processedRefundIds st"
    and "getEndpointConfig P config (url (refund inp)) = Inr endpointConfig"
    and "checkCaps P config endpointConfig (reset_caps st (today_of inp) (month_of inp))
           (refund inp) = None"
  shows "executions (processSingleRefund P config st inp) = executions st @ [refund inp]"
    and "todayRefundedCents (processSingleRefund P config st inp)
         = (case executeRefundTx (chain_outcome inp) (refund inp) of
              TxSuccess h a g \<Rightarrow>
                double_add (todayRefundedCents (reset_caps st (today_of inp) (month_of inp)))
                  (amountCents (refund inp))
            | TxFailure e b \<Rightarrow> todayRefundedCents (reset_caps st (today_of inp) (month_of inp)))"
  using assms
  by (auto simp: processSingleRefund_def begin_refund_def checkCaps_def Let_def today_of_def
        month_of_def complete_refund_counters split: if_splits tx_result.split)

text \<open>
  C3: for an instruction not processed before, on an open socket: the executor rejects
  with the first reason of the order endpoint disabled, per-request maximum, daily cap,
  monthly cap, and executes when there is none. With a daily cap of 50 and 4950 cents
  refunded today, 100 cents are rejected with EXCEEDED_CAP, the counter stays at 4950 and
  nothing is executed; 50 cents pass the daily check (4950 + 50 > 5000 is false) and a
  successful execution brings the counter to 5000. A configured (non-zero) cap is exceeded
  exactly when counter + amountCents > floor(cap * 100), the sum and the product being
  those of the platform, rounded to a double.
\<close>

theorem C3_cap_enforcement:
  assumes "refund_id (refund inp) \<notin> processedRefundIds st"
    and "getEndpointConfig P config (url (refund inp)) = Inr endpointConfig"
    and "wsOpen st"
  shows "(case checkCaps P config endpointConfig (reset_caps st (today_of inp) (month_of inp))
                 (refund inp) of
            Some (why, note) \<Rightarrow>
              sent (processSingleRefund P config st inp)
                = sent st @ [RefundRejected (refund_id (refund inp)) why note]
              \<and> executions (processSingleRefund P config st inp) = executions st
          | None \<Rightarrow>
              executions (processSingleRefund P config st inp) = executions st @ [refund inp])
       \<and> (cap \<noteq> 0 \<longrightarrow>
            cap_exceeded (Some cap) refunded cents
              = (double_add refunded cents > of_int \<lfloor>double_mul cap 100\<rfloor>))
       \<and> (dailyCapUsd config = Some 50 \<and> todayRefundedCents st = 4950
            \<and> lastCapResetDate st = today_of inp \<and> amountCents (refund inp) = 100
            \<and> \<not> endpoint_disabled endpointConfig
            \<and> \<not> amountUsd (refund inp) > effective_max config endpointConfig
          \<longrightarrow> sent (processSingleRefund P config st inp)
                = sent st @ [RefundRejected (refund_id (refund inp)) ''EXCEEDED_CAP''
                               ''Daily refund cap exceeded'']
              \<and> todayRefundedCents (processSingleRefund P config st inp) = 4950
              \<and> executions (processSingleRefund P config st inp) = executions st)
       \<and> (dailyCapUsd config = Some 50 \<and> todayRefundedCents st = 4950
            \<and> lastCapResetDate st = today_of inp \<and> amountCents (refund inp) = 50
            \<and> \<not> endpoint_disabled endpointConfig
            \<and> \<not> amountUsd (refund inp) > effective_max config endpointConfig
            \<and> \<not> cap_exceeded (monthlyCapUsd config)
                   (monthRefundedCents (reset_caps st (today_of inp) (month_of inp))) 50
            \<and> executeRefundTx (chain_outcome inp) (refund inp) = TxSuccess txHash amountRaw gas
          \<longrightarrow> \<not> cap_exceeded (dailyCapUsd config) (todayRefundedCents st)
                   (amountCents (refund inp))
              \<and> executions (processSingleRefund P config st inp) = executions st @ [refund inp]
              \<and> todayRefundedCents (processSingleRefund P config st inp) = 5000)"
proof (intro conjI impI)
  show "case checkCaps P config endpointConfig (reset_caps st (today_of inp) (month_of inp))
               (refund inp) of
          Some (why, note) \<Rightarrow>
            sent (processSingleRefund P config st inp)
              = sent st @ [RefundRejected (refund_id (refund inp)) why note]
            \<and> executions (processSingleRefund P config st inp) = executions st
        | None \<Rightarrow>
            executions (processSingleRefund P config st inp) = executions st @ [refund inp]"
    using processSingleRefund_denied(1,2) [OF assms] processSingleRefund_allowed(1) [OF assms(1,2)]
    by (auto split: option.split)
next
  assume "cap \<noteq> 0"
  then show "cap_exceeded (Some cap) refunded cents
             = (double_add refunded cents > of_int \<lfloor>double_mul cap 100\<rfloor>)"
    by (simp add: cap_exceeded_def)
next
  assume h: "dailyCapUsd config = Some 50 \<and> todayRefundedCents st = 4950
            \<and> lastCapResetDate st = today_of inp \<and> amountCents (refund inp) = 100
            \<and> \<not> endpoint_disabled endpointConfig
            \<and> \<not> amountUsd (refund inp) > effective_max config endpointConfig"
  then have c: "checkCaps P config endpointConfig (reset_caps st (today_of inp) (month_of inp))
           (refund inp) = Some (''EXCEEDED_CAP'', ''Daily refund cap exceeded'')"
    by (simp add: checkCaps_def cap_exceeded_def double_add_def double_mul_def)
  show "sent (processSingleRefund P config st inp)
                = sent st @ [RefundRejected (refund_id (refund inp)) ''EXCEEDED_CAP''
                               ''Daily refund cap exceeded'']"
    by (rule processSingleRefund_denied(1) [OF assms c])
  show "executions (processSingleRefund P config st inp) = executions st"
    by (rule processSingleRefund_denied(2) [OF assms c])
  show "todayRefundedCents (processSingleRefund P config st inp) = 4950"
    using assms h
    by (simp add: processSingleRefund_def begin_refund_def Let_def cap_exceeded_def
          double_add_def double_mul_def today_of_def [symmetric])
next
  assume h: "dailyCapUsd config = Some 50 \<and> todayRefundedCents st = 4950
            \<and> lastCapResetDate st = today_of inp \<and> amountCents (refund inp) = 50
            \<and> \<not> endpoint_disabled endpointConfig
            \<and> \<not> amountUsd (refund inp) > effective_max config endpointConfig
            \<and> \<not> cap_exceeded (monthlyCapUsd config)
                   (monthRefundedCents (reset_caps st (today_of inp) (month_of inp))) 50
            \<and> executeRefundTx (chain_outcome inp) (refund inp) = TxSuccess txHash amountRaw gas"
  then have c: "checkCaps P config endpointConfig (reset_caps st (today_of inp) (month_of inp))
           (refund inp) = None"
    by (simp add: checkCaps_def cap_exceeded_def double_add_def double_mul_def)
  show "\<not> cap_exceeded (dailyCapUsd config) (todayRefundedCents st) (amountCents (refund inp))"
    using h by (simp add: cap_exceeded_def double_add_def double_mul_def)
  show "executions (processSingleRefund P config st inp) = executions st @ [refund inp]"
    by (rule processSingleRefund_allowed(1) [OF assms(1,2) c])
  show "todayRefundedCents (processSingleRefund P config st inp) = 5000"
    using processSingleRefund_allowed(2) [OF assms(1,2) c] h by (simp add: double_add_def)
qed

theorem C3_cap_enforcement_witness:
  "sent (processSingleRefund demo_refund_platform demo_config demo_executor
           (demo_refund ''r1'' 100))
     = [RefundRejected ''r1'' ''EXCEEDED_CAP'' ''Daily refund cap exceeded'']
   \<and> todayRefundedCents (processSingleRefund demo_refund_platform demo_config demo_executor
           (demo_refund ''r1'' 100)) = 4950
   \<and> executions (processSingleRefund demo_refund_platform demo_config demo_executor
           (demo_refund ''r1'' 100)) = []
   \<and> executions (processSingleRefund demo_refund_platform demo_config demo_executor
           (demo_refund ''r2'' 50)) = [refund (demo_refund ''r2'' 50)]
   \<and> todayRefundedCents (processSingleRefund demo_refund_platform demo_config demo_executor
           (demo_refund ''r2'' 50)) = 5000"
proof -
  have fresh: "refund_id (refund (demo_refund rid cents)) \<notin> processedRefundIds demo_executor"
    for rid cents
    by (simp add: demo_refund_def demo_executor_def new_RefundExecutor_def)
  have ep: "getEndpointConfig demo_refund_platform demo_config (url (refund (demo_refund rid cents)))
            = Inr None" for rid cents
    by (simp add: getEndpointConfig_def demo_config_def)
  have op: "wsOpen demo_executor"
    by (simp add: demo_executor_def)
  have empty: "sent demo_executor = []" "executions demo_executor = []"
    by (simp_all add: demo_executor_def new_RefundExecutor_def)
  have rid: "refund_id (refund (demo_refund ''r1'' 100)) = ''r1''"
    by (simp add: demo_refund_def)
  have h1: "dailyCapUsd demo_config = Some 50 \<and> todayRefundedCents demo_executor = 4950
            \<and> lastCapResetDate demo_executor = today_of (demo_refund ''r1'' 100)
            \<and> amountCents (refund (demo_refund ''r1'' 100)) = 100
            \<and> \<not> endpoint_disabled None
            \<and> \<not> amountUsd (refund (demo_refund ''r1'' 100)) > effective_max demo_config None"
    by (simp add: demo_config_def demo_executor_def new_RefundExecutor_def today_of_def
          demo_refund_def endpoint_disabled_def effective_max_def)
  have h2: "dailyCapUsd demo_config = Some 50 \<and> todayRefundedCents demo_executor = 4950
            \<and> lastCapResetDate demo_executor = today_of (demo_refund ''r2'' 50)
            \<and> amountCents (refund (demo_refund ''r2'' 50)) = 50
            \<and> \<not> endpoint_disabled None
            \<and> \<not> amountUsd (refund (demo_refund ''r2'' 50)) > effective_max demo_config None
            \<and> \<not> cap_exceeded (monthlyCapUsd demo_config)
                   (monthRefundedCents (reset_caps demo_executor (today_of (demo_refund ''r2'' 50))
                      (month_of (demo_refund ''r2'' 50)))) 50
            \<and> executeRefundTx (chain_outcome (demo_refund ''r2'' 50)) (refund (demo_refund ''r2'' 50))
                = TxSuccess ''0xhash'' ''500000'' 1"
    by (simp add: demo_config_def demo_executor_def new_RefundExecutor_def today_of_def
          month_of_def demo_refund_def endpoint_disabled_def effective_max_def cap_exceeded_def
          executeRefundTx_def starts_with_def double_add_def double_mul_def)
  note t1 = C3_cap_enforcement
    [OF fresh [of "''r1''" 100] ep [of "''r1''" 100] op,
     where txHash = "''0xhash''" and amountRaw = "''500000''" and gas = 1
       and cap = 50 and refunded = 4950 and cents = 100]
  note t2 = C3_cap_enforcement
    [OF fresh [of "''r2''" 50] ep [of "''r2''" 50] op,
     where txHash = "''0xhash''" and amountRaw = "''500000''" and gas = 1
       and cap = 50 and refunded = 4950 and cents = 50]
  have r1: "sent (processSingleRefund demo_refund_platform demo_config demo_executor
                (demo_refund ''r1'' 100))
            = sent demo_executor @ [RefundRejected (refund_id (refund (demo_refund ''r1'' 100)))
                 ''EXCEEDED_CAP'' ''Daily refund cap exceeded'']
          \<and> todayRefundedCents (processSingleRefund demo_refund_platform demo_config
                demo_executor (demo_refund ''r1'' 100)) = 4950
          \<and> executions (processSingleRefund demo_refund_platform demo_config demo_executor
                (demo_refund ''r1'' 100)) = executions demo_executor"
    by (rule mp [OF conjunct1 [OF conjunct2 [OF conjunct2 [OF t1]]] h1])
  have r2: "\<not> cap_exceeded (dailyCapUsd demo_config) (todayRefundedCents demo_executor)
                 (amountCents (refund (demo_refund ''r2'' 50)))
          \<and> executions (processSingleRefund demo_refund_platform demo_config demo_executor
                (demo_refund ''r2'' 50)) = executions demo_executor @ [refund (demo_refund ''r2'' 50)]
          \<and> todayRefundedCents (processSingleRefund demo_refund_platform demo_config
                demo_executor (demo_refund ''r2'' 50)) = 5000"
    by (rule mp [OF conjunct2 [OF conjunct2 [OF conjunct2 [OF t2]]] h2])
  show ?thesis
    using r1 r2 by (simp add: empty rid)
qed

subsection \<open>Idempotency\<close>

lemma processSingleRefund_skips_processed:
  "refund_id (refund inp) \<in> processedRefundIds st
   \<Longrightarrow> executions (processSingleRefund P config st inp) = executions st
     \<and> sent (processSingleRefund P config st inp) = sent st
     \<and> processedRefundIds (processSingleRefund P config st inp) = processedRefundIds st"
  by (simp add: processSingleRefund_def begin_refund_def)

lemma processSingleRefund_marks_success:
  "begin_refund P config st inp = Awaiting st1
   \<Longrightarrow> executeRefundTx (chain_outcome inp) (refund inp) = TxSuccess h a g
   \<Longrightarrow> refund_id (refund inp) \<in> processedRefundIds (processSingleRefund P config st inp)"
  by (simp add: processSingleRefund_def complete_refund_def Let_def sendMessage_def log_line_def)

text \<open>
  C2, at two deliveries of the same id where the second arrives while the first execution
  is pending: both pass the check of \<^verbatim>\<open>processedRefundIds\<close>, since the id is added only after
  the awaited execution has succeeded; the transfer is executed twice and confirmed twice,
  and the daily counter passes the cap. Delivered one after the other, the second is skipped.
\<close>

theorem C2_overlapping_deliveries_execute_twice:
  "executions (fst (run_event_loop demo_refund_platform demo_config (demo_executor, [])
                      demo_overlap))
     = [refund (demo_refund ''r1'' 50), refund (demo_refund ''r1'' 50)]
   \<and> sent (fst (run_event_loop demo_refund_platform demo_config (demo_executor, [])
                   demo_overlap))
     = [RefundExecuting ''r1'', RefundExecuting ''r1'',
        RefundConfirmed ''r1'' ''0xhash'' ''base'' ''500000'' ''USDC'' 1,
        RefundConfirmed ''r1'' ''0xhash'' ''base'' ''500000'' ''USDC'' 1]
   \<and> todayRefundedCents (fst (run_event_loop demo_refund_platform demo_config
                                 (demo_executor, []) demo_overlap)) = 5050
   \<and> executions (process_sequentially demo_refund_platform demo_config demo_executor
                    [demo_refund ''r1'' 50, demo_refund ''r1'' 50])
     = [refund (demo_refund ''r1'' 50)]"
  by (simp add: demo_overlap_def demo_refund_eval)


lemma complete_refund_processed:
  "x \<in> processedRefundIds st \<Longrightarrow> x \<in> processedRefundIds (complete_refund config st r result)"
  by (simp add: complete_refund_def Let_def sendMessage_def log_line_def split: tx_result.split)

lemma begin_refund_effects:
  "case begin_refund P config st inp of
     Returned st1 \<Rightarrow> executions st1 = executions st \<and> processedRefundIds st1 = processedRefundIds st
   | Awaiting st1 \<Rightarrow> executions st1 = executions st @ [refund inp]
       \<and> processedRefundIds st1 = processedRefundIds st
       \<and> refund_id (refund inp) \<notin> processedRefundIds st"
  by (simp add: begin_refund_def Let_def split: sum.split js_error.split)

lemma processSingleRefund_effects:
  "(x \<in> processedRefundIds st \<longrightarrow> x \<in> processedRefundIds (processSingleRefund P config st inp))
   \<and> (executions (processSingleRefund P config st inp) = executions st
       \<or> executions (processSingleRefund P config st inp) = executions st @ [refund inp]
          \<and> refund_id (refund inp) \<notin> processedRefundIds st)"
  using begin_refund_effects [where P = P and config = config and st = st and inp = inp]
  by (auto simp: processSingleRefund_def complete_refund_counters complete_refund_processed
        split: progress.splits)

text \<open>
  Processed one after the other, the guard holds: once an id is in the set, no later
  instruction with that id reaches the executor.
\<close>

lemma sequential_redelivery_never_executes:
  "x \<in> processedRefundIds st \<Longrightarrow>
   filter (\<lambda>r. refund_id r = x) (executions (process_sequentially P config st inps))
     = filter (\<lambda>r. refund_id r = x) (executions st)"
proof (induction inps arbitrary: st)
  case Nil
  show ?case by simp
next
  case (Cons inp inps)
  have p: "x \<in> processedRefundIds (processSingleRefund P config st inp)"
    using processSingleRefund_effects [where x = x and st = st and P = P and config = config and inp = inp] Cons.prems by blast
  have e: "filter (\<lambda>r. refund_id r = x) (executions (processSingleRefund P config st inp))
           = filter (\<lambda>r. refund_id r = x) (executions st)"
    using processSingleRefund_effects [where x = x and st = st and P = P and config = config and inp = inp] Cons.prems by auto
  show ?case
    using Cons.IH [OF p] e by simp
qed


end
